theory Spec2Isabelle
  imports Main "HOL-Library.Word"
begin

section \<open>The OpenGL renderer of p5py (p5py/opengl/renderer.py)\<close>

text \<open>
  The renderer is a class with two fields (\<open>shader_program\<close>, \<open>geoms\<close>) that reads the
  module-level dictionary \<open>sketch_attrs\<close> and talks to the OpenGL context through
  pyglet. The embedding threads one record, \<open>world\<close>, through every method: it holds the
  sketch attributes, the two fields of the renderer and the OpenGL context. The context is
  a log of the calls made to it, in order, with the arguments the Python code passes,
  the counter behind \<open>glGenBuffers\<close> and the value of each uniform of the program.
  A call to OpenGL is logged and returns: what the driver does with it, and the error
  check of pyglet after it, are not part of the embedding.

  A method that may raise returns \<open>(Inl e, w)\<close>: the exception and the world as the
  method left it when it raised. \<open>(Inr v, w)\<close> is a normal return.

  Two type variables stand for what the renderer passes on and never computes with.
  \<open>'n\<close> is the type of the coordinates of a shape: whatever Python numbers the shape
  holds, integers or floats. \<open>'f\<close> is the type of Python's floats: the components of a
  normalized colour, and the elements of an array of \<open>GLfloat\<close> as Python reads them.
  The renderer turns coordinates into an array of \<open>GLfloat\<close> with \<open>ctypes\<close>, which
  rounds a number to a C float and raises for a number it cannot convert.
\<close>

subsection \<open>Data\<close>

datatype error =
    NotImplementedError string
  | KeyError string
  | ShaderCompileError
  | ShaderLinkError
  | UnregisteredUniform string
  | TypeError
  | OverflowError

type_synonym 'f rgba = "'f \<times> 'f \<times> 'f \<times> 'f"

text \<open>
  A colour of the sketch; the renderer reads its \<open>normalized\<close> property only, four
  floats that \<open>ctypes\<close> passes to OpenGL as they are, rounded to C floats.
\<close>

record 'f color =
  normalized :: "'f rgba"

text \<open>The keys of \<open>sketch._attrs\<close> that the renderer reads.\<close>

record 'f sketch_attributes =
  width :: int
  height :: int
  fill_enabled :: bool
  fill_color :: "'f color"
  stroke_enabled :: bool
  stroke_color :: "'f color"
  background_color :: "'f color"

text \<open>
  A shape: the renderer iterates over \<open>shape.vertices\<close> and over each vertex, over
  \<open>shape.faces\<close> and over each face, without checking how long a vertex or a face is.
\<close>

record 'n shape =
  vertices :: "'n list list"
  faces :: "int list list"

datatype gl_cap = GL_DEPTH_TEST
datatype gl_func = GL_LEQUAL
datatype gl_target = GL_ARRAY_BUFFER | GL_ELEMENT_ARRAY_BUFFER
datatype gl_usage = GL_STATIC_DRAW
datatype gl_type = GL_FLOAT | GL_UNSIGNED_INT
datatype gl_mode = GL_TRIANGLES | GL_LINE_LOOP
datatype gl_bit = GL_COLOR_BUFFER_BIT | GL_DEPTH_BUFFER_BIT
datatype shader_kind = Vertex | Fragment

text \<open>
  The contents of a \<open>ctypes\<close> array handed to \<open>glBufferData\<close>: C floats, or unsigned
  integers of 32 bits.
\<close>

datatype 'f gl_data = GLfloats "'f list" | GLuints "32 word list"

datatype 'f gl_call =
    GlEnable gl_cap
  | GlDepthFunc gl_func
  | GlViewport int int int int
  | GlGenBuffers nat
  | GlBindBuffer gl_target nat
  | GlBufferData gl_target nat "'f gl_data" gl_usage
  | GlGetAttribLocation nat string
  | GlEnableVertexAttribArray int
  | GlVertexAttribPointer int nat gl_type bool nat nat
  | GlDrawElements gl_mode nat gl_type nat
  | GlClearColor "'f rgba"
  | GlClear "gl_bit list"
  | GlUniform4f string "'f rgba"
  | GlCompileShader shader_kind string
  | GlAttachShader nat shader_kind
  | GlLinkProgram nat
  | GlUseProgram nat

text \<open>
  The OpenGL context. \<open>compiles\<close>, \<open>links\<close> and \<open>attrib_location\<close> are the driver's
  answers: which shader sources its compiler accepts, whether it links the attached
  shaders, and where it put a vertex attribute. \<open>GLfloat_of\<close> is the answer of the
  bindings: the C float that \<open>ctypes\<close> makes of a coordinate when it fills an array of
  \<open>GLfloat\<close>, or the exception it raises for it (\<open>OverflowError\<close> for an integer too large
  for a float, \<open>TypeError\<close> for what is not a number).
\<close>

record ('n, 'f) gl_context =
  calls :: "'f gl_call list"
  next_buffer :: nat
  uniform_value :: "string \<rightharpoonup> 'f rgba"
  compiles :: "shader_kind \<Rightarrow> string \<Rightarrow> bool"
  links :: "shader_kind list \<Rightarrow> bool"
  attrib_location :: "string \<Rightarrow> int"
  GLfloat_of :: "'n \<Rightarrow> error + 'f"

record shader =
  source :: string
  kind :: shader_kind

text \<open>The functions a uniform is registered with; the renderer uses \<open>glUniform4f\<close> only.\<close>

datatype setter = Uniform4f

record shader_program =
  pid :: nat
  attached :: "shader_kind list"
  uniforms :: "string \<rightharpoonup> setter"

text \<open>An entry of \<open>self.geoms\<close>.\<close>

record geom =
  vertex_buffer :: nat
  index_buffer :: nat
  num_elements :: nat

record ('n, 'f) world =
  sketch_attrs :: "'f sketch_attributes"
  shader_prog :: shader_program
  geoms :: "string \<rightharpoonup> geom"
  gl :: "('n, 'f) gl_context"

type_synonym ('n, 'f, 'a) result = "(error + 'a) \<times> ('n, 'f) world"

subsection \<open>Sequencing\<close>

text \<open>Statement after statement: the second runs when the first did not raise.\<close>

definition and_then ::
  "('n, 'f, 'a) result \<Rightarrow> ('a \<Rightarrow> ('n, 'f) world \<Rightarrow> ('n, 'f, 'b) result) \<Rightarrow> ('n, 'f, 'b) result" where
  "and_then r k = (case r of (Inl e, w) \<Rightarrow> (Inl e, w) | (Inr a, w) \<Rightarrow> k a w)"

definition ok :: "('n, 'f) world \<Rightarrow> ('n, 'f, unit) result" where
  "ok w = (Inr (), w)"

subsection \<open>The calls to OpenGL\<close>

definition emit :: "'f gl_call \<Rightarrow> ('n, 'f) world \<Rightarrow> ('n, 'f) world" where
  "emit c w = w\<lparr>gl := (gl w)\<lparr>calls := calls (gl w) @ [c]\<rparr>\<rparr>"

definition glEnable :: "gl_cap \<Rightarrow> ('n, 'f) world \<Rightarrow> ('n, 'f) world" where
  "glEnable cap w = emit (GlEnable cap) w"

definition glDepthFunc :: "gl_func \<Rightarrow> ('n, 'f) world \<Rightarrow> ('n, 'f) world" where
  "glDepthFunc f w = emit (GlDepthFunc f) w"

definition glViewport :: "int \<Rightarrow> int \<Rightarrow> int \<Rightarrow> int \<Rightarrow> ('n, 'f) world \<Rightarrow> ('n, 'f) world" where
  "glViewport x y wd ht w = emit (GlViewport x y wd ht) w"

text \<open>\<open>glGenBuffers(1, pointer(b))\<close> writes an unused buffer name into \<open>b\<close>.\<close>

definition glGenBuffers :: "('n, 'f) world \<Rightarrow> nat \<times> ('n, 'f) world" where
  "glGenBuffers w =
     (let b = next_buffer (gl w)
      in (b, emit (GlGenBuffers b) (w\<lparr>gl := (gl w)\<lparr>next_buffer := Suc b\<rparr>\<rparr>)))"

definition glBindBuffer :: "gl_target \<Rightarrow> nat \<Rightarrow> ('n, 'f) world \<Rightarrow> ('n, 'f) world" where
  "glBindBuffer t b w = emit (GlBindBuffer t b) w"

definition glBufferData ::
  "gl_target \<Rightarrow> nat \<Rightarrow> 'f gl_data \<Rightarrow> gl_usage \<Rightarrow> ('n, 'f) world \<Rightarrow> ('n, 'f) world" where
  "glBufferData t n d u w = emit (GlBufferData t n d u) w"

definition glGetAttribLocation :: "nat \<Rightarrow> string \<Rightarrow> ('n, 'f) world \<Rightarrow> int \<times> ('n, 'f) world" where
  "glGetAttribLocation p name w =
     (attrib_location (gl w) name, emit (GlGetAttribLocation p name) w)"

definition glEnableVertexAttribArray :: "int \<Rightarrow> ('n, 'f) world \<Rightarrow> ('n, 'f) world" where
  "glEnableVertexAttribArray i w = emit (GlEnableVertexAttribArray i) w"

definition glVertexAttribPointer ::
  "int \<Rightarrow> nat \<Rightarrow> gl_type \<Rightarrow> bool \<Rightarrow> nat \<Rightarrow> nat \<Rightarrow> ('n, 'f) world \<Rightarrow> ('n, 'f) world" where
  "glVertexAttribPointer i n t nrm stride off w =
     emit (GlVertexAttribPointer i n t nrm stride off) w"

definition glDrawElements :: "gl_mode \<Rightarrow> nat \<Rightarrow> gl_type \<Rightarrow> nat \<Rightarrow> ('n, 'f) world \<Rightarrow> ('n, 'f) world" where
  "glDrawElements m n t off w = emit (GlDrawElements m n t off) w"

definition glClearColor :: "'f rgba \<Rightarrow> ('n, 'f) world \<Rightarrow> ('n, 'f) world" where
  "glClearColor c w = emit (GlClearColor c) w"

definition glClear :: "gl_bit list \<Rightarrow> ('n, 'f) world \<Rightarrow> ('n, 'f) world" where
  "glClear bits w = emit (GlClear bits) w"

text \<open>\<open>glUniform4f\<close> on the slot of a uniform stores the four components there.\<close>

definition glUniform4f :: "string \<Rightarrow> 'f rgba \<Rightarrow> ('n, 'f) world \<Rightarrow> ('n, 'f) world" where
  "glUniform4f name v w =
     emit (GlUniform4f name v)
       (w\<lparr>gl := (gl w)\<lparr>uniform_value := (uniform_value (gl w))(name \<mapsto> v)\<rparr>\<rparr>)"

subsection \<open>Shader and ShaderProgram (p5py/opengl/shader.py)\<close>

text \<open>
  Modelled from the spec: the module \<open>shader.py\<close>, with the classes \<open>Shader\<close> and
  \<open>ShaderProgram\<close>, is imported by the renderer and is not among the sources. The spec
  (4.4) gives its operations: compiling a shader source fails with a compile error if the
  source is invalid; a shader is attached to a program; linking fails if linking fails;
  \<open>activate\<close> binds the program as current; \<open>add_uniform(name, setter)\<close> registers a named
  uniform slot; \<open>set_uniform_data(name, values...)\<close> pushes the values through the
  registered setter and fails if the name is unregistered.
\<close>

definition shader_compile :: "shader \<Rightarrow> ('n, 'f) world \<Rightarrow> ('n, 'f, unit) result" where
  "shader_compile sh w =
     (if compiles (gl w) (kind sh) (source sh)
      then ok (emit (GlCompileShader (kind sh) (source sh)) w)
      else (Inl ShaderCompileError, w))"

definition shader_attach :: "shader \<Rightarrow> ('n, 'f) world \<Rightarrow> ('n, 'f, unit) result" where
  "shader_attach sh w =
     ok (emit (GlAttachShader (pid (shader_prog w)) (kind sh))
          (w\<lparr>shader_prog := (shader_prog w)\<lparr>attached := attached (shader_prog w) @ [kind sh]\<rparr>\<rparr>))"

definition program_link :: "('n, 'f) world \<Rightarrow> ('n, 'f, unit) result" where
  "program_link w =
     (if links (gl w) (attached (shader_prog w))
      then ok (emit (GlLinkProgram (pid (shader_prog w))) w)
      else (Inl ShaderLinkError, w))"

definition program_activate :: "('n, 'f) world \<Rightarrow> ('n, 'f, unit) result" where
  "program_activate w = ok (emit (GlUseProgram (pid (shader_prog w))) w)"

definition add_uniform :: "string \<Rightarrow> setter \<Rightarrow> ('n, 'f) world \<Rightarrow> ('n, 'f, unit) result" where
  "add_uniform name f w =
     ok (w\<lparr>shader_prog := (shader_prog w)\<lparr>uniforms := (uniforms (shader_prog w))(name \<mapsto> f)\<rparr>\<rparr>)"

fun apply_setter :: "setter \<Rightarrow> string \<Rightarrow> 'f rgba \<Rightarrow> ('n, 'f) world \<Rightarrow> ('n, 'f) world" where
  "apply_setter Uniform4f name v w = glUniform4f name v w"

definition set_uniform_data :: "string \<Rightarrow> 'f rgba \<Rightarrow> ('n, 'f) world \<Rightarrow> ('n, 'f, unit) result" where
  "set_uniform_data name v w =
     (case uniforms (shader_prog w) name of
        None \<Rightarrow> (Inl (UnregisteredUniform name), w)
      | Some f \<Rightarrow> ok (apply_setter f name v w))"

subsection \<open>BaseRenderer\<close>

text \<open>
  Each method of the base class either raises \<open>NotImplementedError("Abstract")\<close> or is
  \<open>pass\<close>. None of them touches the world.
\<close>

definition BaseRenderer_init :: "'w \<Rightarrow> (error + unit) \<times> 'w" where
  "BaseRenderer_init w = (Inl (NotImplementedError ''Abstract''), w)"

definition BaseRenderer_initialize :: "'w \<Rightarrow> (error + unit) \<times> 'w" where
  "BaseRenderer_initialize w = (Inl (NotImplementedError ''Abstract''), w)"

definition BaseRenderer_check_support :: "'w \<Rightarrow> (error + bool) \<times> 'w" where
  "BaseRenderer_check_support w = (Inl (NotImplementedError ''Abstract''), w)"

definition BaseRenderer_pre_render :: "'w \<Rightarrow> (error + unit) \<times> 'w" where
  "BaseRenderer_pre_render w = (Inr (), w)"

definition BaseRenderer_render :: "'s \<Rightarrow> 'w \<Rightarrow> (error + unit) \<times> 'w" where
  "BaseRenderer_render shape w = (Inl (NotImplementedError ''Abstract''), w)"

definition BaseRenderer_post_render :: "'w \<Rightarrow> (error + unit) \<times> 'w" where
  "BaseRenderer_post_render w = (Inr (), w)"

definition BaseRenderer_clear :: "'w \<Rightarrow> (error + unit) \<times> 'w" where
  "BaseRenderer_clear w = (Inl (NotImplementedError ''Abstract''), w)"

definition BaseRenderer_cleanup :: "'w \<Rightarrow> (error + unit) \<times> 'w" where
  "BaseRenderer_cleanup w = (Inr (), w)"

definition BaseRenderer_test_render :: "'w \<Rightarrow> (error + unit) \<times> 'w" where
  "BaseRenderer_test_render w = (Inl (NotImplementedError ''Abstract''), w)"

subsection \<open>OpenGLRenderer\<close>

text \<open>
  \<open>__init__\<close>: a new shader program and an empty cache. The program is the one the
  context hands out under the name \<open>p\<close>; nothing is attached or registered yet.
\<close>

definition OpenGLRenderer_init :: "nat \<Rightarrow> ('n, 'f) world \<Rightarrow> ('n, 'f) world" where
  "OpenGLRenderer_init p w =
     w\<lparr>shader_prog := \<lparr>pid = p, attached = [], uniforms = Map.empty\<rparr>, geoms := Map.empty\<rparr>"

definition newline :: char where
  "newline = CHR 0x0A"

definition triple_quoted :: "string list \<Rightarrow> string \<Rightarrow> string" where
  "triple_quoted ls last_line = newline # concat (map (\<lambda>l. l @ [newline]) ls) @ last_line"

definition vertex_shader_source :: string where
  "vertex_shader_source = triple_quoted
     [''            #version 130'',
      [],
      ''            in vec3 position;'',
      [],
      ''            void main()'',
      ''            {'',
      ''                gl_Position = vec4(position, 1.0);'',
      ''            }'']
     ''        ''"

definition fragment_shader_source :: string where
  "fragment_shader_source = triple_quoted
     [''            #version 130'',
      [],
      ''            out vec4 outColor;'',
      ''            uniform vec4 fill_color;'',
      [],
      ''            void main()'',
      ''            {'',
      ''                gl_FragColor = fill_color;'',
      ''            }'']
     ''        ''"

text \<open>The loop of \<open>_init_shaders\<close>: compile and attach each shader, in order.\<close>

fun compile_and_attach :: "shader list \<Rightarrow> ('n, 'f) world \<Rightarrow> ('n, 'f, unit) result" where
  "compile_and_attach [] w = ok w"
| "compile_and_attach (sh # shs) w =
     and_then (shader_compile sh w) (\<lambda>_ w.
     and_then (shader_attach sh w) (\<lambda>_ w.
     compile_and_attach shs w))"

definition init_shaders :: "('n, 'f) world \<Rightarrow> ('n, 'f, unit) result" where
  "init_shaders w =
     (let shaders = [\<lparr>source = vertex_shader_source, kind = Vertex\<rparr>,
                     \<lparr>source = fragment_shader_source, kind = Fragment\<rparr>]
      in and_then (compile_and_attach shaders w) (\<lambda>_ w.
         and_then (program_link w) (\<lambda>_ w.
         and_then (program_activate w) (\<lambda>_ w.
         add_uniform ''fill_color'' Uniform4f w))))"

definition initialize :: "('n, 'f) world \<Rightarrow> ('n, 'f, unit) result" where
  "initialize w =
     (let w = glEnable GL_DEPTH_TEST w;
          w = glDepthFunc GL_LEQUAL w;
          w = glViewport 0 0 (width (sketch_attrs w)) (height (sketch_attrs w)) w
      in init_shaders w)"

text \<open>
  \<open>OpenGLRenderer\<close> does not define \<open>check_support\<close>, \<open>pre_render\<close>, \<open>post_render\<close> or
  \<open>cleanup\<close>: it has the base class's.
\<close>

definition check_support :: "('n, 'f) world \<Rightarrow> ('n, 'f, bool) result" where
  "check_support w = BaseRenderer_check_support w"

definition pre_render :: "('n, 'f) world \<Rightarrow> ('n, 'f, unit) result" where
  "pre_render w = BaseRenderer_pre_render w"

definition post_render :: "('n, 'f) world \<Rightarrow> ('n, 'f, unit) result" where
  "post_render w = BaseRenderer_post_render w"

definition cleanup :: "('n, 'f) world \<Rightarrow> ('n, 'f, unit) result" where
  "cleanup w = BaseRenderer_cleanup w"

text \<open>
  \<open>(GLfloat * len(vertices))(*vertices)\<close>: \<open>ctypes\<close> converts the numbers one after the
  other and raises at the first it cannot convert.
\<close>

fun GLfloat_array :: "('n \<Rightarrow> error + 'f) \<Rightarrow> 'n list \<Rightarrow> error + 'f list" where
  "GLfloat_array cv [] = Inr []"
| "GLfloat_array cv (x # xs) =
     (case cv x of
        Inl e \<Rightarrow> Inl e
      | Inr y \<Rightarrow> (case GLfloat_array cv xs of Inl e \<Rightarrow> Inl e | Inr ys \<Rightarrow> Inr (y # ys)))"

text \<open>
  \<open>(GLuint * len(elements))(*elements)\<close>: \<open>ctypes\<close> takes any integer and keeps its low
  32 bits.
\<close>

definition GLuint_array :: "int list \<Rightarrow> 32 word list" where
  "GLuint_array xs = map word_of_int xs"

text \<open>
  \<open>_create_buffers\<close>. The key is \<open>str(shape.__dict__)\<close>; \<open>str\<close> is Python's and prints
  floats, so the fingerprint is the parameter \<open>fp\<close>, a function of the shape's data.
  For a shape that is not cached the method makes two buffer names and binds the first;
  then it converts the coordinates, and when \<open>ctypes\<close> raises there the method ends with
  that exception: the two names are spent and nothing is cached. Otherwise it uploads
  the coordinates and the indices, 4 bytes each, sets the attribute up and caches the
  entry. \<open>num_elements\<close> is the length of the Python list of indices.
\<close>

definition create_buffers ::
  "('n shape \<Rightarrow> string) \<Rightarrow> 'n shape \<Rightarrow> ('n, 'f) world \<Rightarrow> ('n, 'f, string) result" where
  "create_buffers fp shape w =
     (let shape_hash = fp shape
      in if geoms w shape_hash \<noteq> None then (Inr shape_hash, w)
         else
           let (vbuf, w) = glGenBuffers w;
               (ibuf, w) = glGenBuffers w;
               w = glBindBuffer GL_ARRAY_BUFFER vbuf w;
               vs = concat (vertices shape)
           in case GLfloat_array (GLfloat_of (gl w)) vs of
                Inl e \<Rightarrow> (Inl e, w)
              | Inr vertices_typed \<Rightarrow>
                  let w = glBufferData GL_ARRAY_BUFFER (4 * length vertices_typed)
                            (GLfloats vertices_typed) GL_STATIC_DRAW w;
                      elements = concat (faces shape);
                      elements_typed = GLuint_array elements;
                      w = glBindBuffer GL_ELEMENT_ARRAY_BUFFER ibuf w;
                      w = glBufferData GL_ELEMENT_ARRAY_BUFFER (4 * length elements_typed)
                            (GLuints elements_typed) GL_STATIC_DRAW w;
                      (position_attr, w) =
                        glGetAttribLocation (pid (shader_prog w)) ''position'' w;
                      w = glEnableVertexAttribArray position_attr w;
                      w = glVertexAttribPointer position_attr 3 GL_FLOAT False 0 0 w
                  in (Inr shape_hash,
                      w\<lparr>geoms := (geoms w)(shape_hash \<mapsto>
                           \<lparr>vertex_buffer = vbuf, index_buffer = ibuf,
                            num_elements = length elements\<rparr>)\<rparr>))"

text \<open>
  \<open>_draw_buffers\<close>. \<open>self.geoms[shape_hash]\<close> raises \<open>KeyError\<close> on a key that is not
  cached, before any call to OpenGL; no statement of the method changes \<open>self.geoms\<close>,
  so the entry is looked up once.
\<close>

definition draw_buffers :: "string \<Rightarrow> ('n, 'f) world \<Rightarrow> ('n, 'f, unit) result" where
  "draw_buffers shape_hash w =
     (case geoms w shape_hash of
        None \<Rightarrow> (Inl (KeyError shape_hash), w)
      | Some g \<Rightarrow>
          let w = glBindBuffer GL_ARRAY_BUFFER (vertex_buffer g) w;
              (position_attr, w) = glGetAttribLocation (pid (shader_prog w)) ''position'' w;
              w = glEnableVertexAttribArray position_attr w;
              w = glVertexAttribPointer position_attr 3 GL_FLOAT False 0 0 w
          in and_then
               (if fill_enabled (sketch_attrs w)
                then and_then
                       (set_uniform_data ''fill_color''
                          (normalized (fill_color (sketch_attrs w))) w)
                       (\<lambda>_ w.
                          let w = glBindBuffer GL_ELEMENT_ARRAY_BUFFER (index_buffer g) w
                          in ok (glDrawElements GL_TRIANGLES (num_elements g)
                                   GL_UNSIGNED_INT 0 w))
                else ok w)
               (\<lambda>_ w.
                  if stroke_enabled (sketch_attrs w)
                  then and_then
                         (set_uniform_data ''fill_color''
                            (normalized (stroke_color (sketch_attrs w))) w)
                         (\<lambda>_ w.
                            ok (glDrawElements GL_LINE_LOOP (num_elements g)
                                  GL_UNSIGNED_INT 0 w))
                  else ok w))"

definition render :: "('n shape \<Rightarrow> string) \<Rightarrow> 'n shape \<Rightarrow> ('n, 'f) world \<Rightarrow> ('n, 'f, unit) result" where
  "render fp shape w =
     and_then (create_buffers fp shape w) (\<lambda>shape_hash w. draw_buffers shape_hash w)"

definition clear :: "('n, 'f) world \<Rightarrow> ('n, 'f, unit) result" where
  "clear w =
     (let w = glClearColor (normalized (background_color (sketch_attrs w))) w
      in ok (glClear [GL_COLOR_BUFFER_BIT, GL_DEPTH_BUFFER_BIT] w))"

subsection \<open>The sketch driver\<close>

text \<open>
  The renderer is driven from outside: \<open>initialize\<close> once, then per frame \<open>pre_render\<close>,
  any number of \<open>render\<close> and \<open>clear\<close>, \<open>post_render\<close>, and \<open>cleanup\<close> at the end. A run
  of such calls stops at the first one that raises.
\<close>

datatype 'n op = Initialize | PreRender | Render "'n shape" | Clear | PostRender | Cleanup

fun perform :: "('n shape \<Rightarrow> string) \<Rightarrow> 'n op \<Rightarrow> ('n, 'f) world \<Rightarrow> ('n, 'f, unit) result" where
  "perform fp Initialize w = initialize w"
| "perform fp PreRender w = pre_render w"
| "perform fp (Render shape) w = render fp shape w"
| "perform fp Clear w = clear w"
| "perform fp PostRender w = post_render w"
| "perform fp Cleanup w = cleanup w"

fun run :: "('n shape \<Rightarrow> string) \<Rightarrow> 'n op list \<Rightarrow> ('n, 'f) world \<Rightarrow> ('n, 'f, unit) result" where
  "run fp [] w = ok w"
| "run fp (c # cs) w = and_then (perform fp c w) (\<lambda>_ w. run fp cs w)"

subsection \<open>Reading the log\<close>

text \<open>The calls made between two worlds, the later one reached from the earlier.\<close>

definition issued :: "('n, 'f) world \<Rightarrow> ('n, 'f) world \<Rightarrow> 'f gl_call list" where
  "issued w w' = drop (length (calls (gl w))) (calls (gl w'))"

fun is_draw :: "'f gl_call \<Rightarrow> bool" where
  "is_draw (GlDrawElements m n t off) = True"
| "is_draw _ = False"

fun is_draw_mode :: "gl_mode \<Rightarrow> 'f gl_call \<Rightarrow> bool" where
  "is_draw_mode m (GlDrawElements m' n t off) = (m' = m)"
| "is_draw_mode m _ = False"

fun is_upload :: "'f gl_call \<Rightarrow> bool" where
  "is_upload (GlGenBuffers b) = True"
| "is_upload (GlBufferData t n d u) = True"
| "is_upload _ = False"

fun element_count :: "'f gl_call \<Rightarrow> nat" where
  "element_count (GlDrawElements m n t off) = n"
| "element_count _ = 0"

fun is_uniform :: "'f gl_call \<Rightarrow> bool" where
  "is_uniform (GlUniform4f name v) = True"
| "is_uniform _ = False"

text \<open>The calls both \<open>_create_buffers\<close> and \<open>_draw_buffers\<close> make to lay out the vertices.\<close>

definition prelude :: "geom \<Rightarrow> ('n, 'f) world \<Rightarrow> 'f gl_call list" where
  "prelude g w =
     [GlBindBuffer GL_ARRAY_BUFFER (vertex_buffer g),
      GlGetAttribLocation (pid (shader_prog w)) ''position'',
      GlEnableVertexAttribArray (attrib_location (gl w) ''position''),
      GlVertexAttribPointer (attrib_location (gl w) ''position'') 3 GL_FLOAT False 0 0]"

text \<open>What the driver must grant for \<open>initialize\<close> to return.\<close>

definition init_succeeds :: "('n, 'f) world \<Rightarrow> bool" where
  "init_succeeds w =
     (compiles (gl w) Vertex vertex_shader_source \<and>
      compiles (gl w) Fragment fragment_shader_source \<and>
      links (gl w) (attached (shader_prog w) @ [Vertex, Fragment]))"

text \<open>
  The cache agrees with a shape when the entry under the shape's fingerprint, if there is
  one, counts the indices of the shape's faces: it was made from this shape, or from one
  with the same fingerprint and as many indices.
\<close>

definition entry_agrees :: "('n shape \<Rightarrow> string) \<Rightarrow> 'n shape \<Rightarrow> ('n, 'f) world \<Rightarrow> bool" where
  "entry_agrees fp shape w =
     (case geoms w (fp shape) of
        None \<Rightarrow> True
      | Some g \<Rightarrow> num_elements g = length (concat (faces shape)))"

text \<open>The shapes a run of calls renders, in order.\<close>

fun shapes_of :: "'n op list \<Rightarrow> 'n shape list" where
  "shapes_of [] = []"
| "shapes_of (Render shape # cs) = shape # shapes_of cs"
| "shapes_of (c # cs) = shapes_of cs"

subsection \<open>The fingerprint of a shape of integers\<close>

text \<open>
  Python's \<open>str\<close> on the \<open>__dict__\<close> of a shape built as \<open>TestRect\<close> is in \<open>test_render\<close>:
  the attribute \<open>vertices\<close> is set first, then \<open>faces\<close>; both are lists of tuples.
  Here the coordinates are integers, which print in decimal.
\<close>

fun digits :: "nat \<Rightarrow> string" where
  "digits n =
     (if n < 10 then [''0123456789'' ! n]
      else digits (n div 10) @ [''0123456789'' ! (n mod 10)])"

declare digits.simps [simp del]

definition py_int :: "int \<Rightarrow> string" where
  "py_int i = (if i < 0 then CHR ''-'' # digits (nat (- i)) else digits (nat i))"

fun join :: "string \<Rightarrow> string list \<Rightarrow> string" where
  "join sep [] = []"
| "join sep [x] = x"
| "join sep (x # y # ys) = x @ sep @ join sep (y # ys)"

definition py_tuple :: "string list \<Rightarrow> string" where
  "py_tuple xs =
     (case xs of
        [x] \<Rightarrow> ''('' @ x @ '',)''
      | _ \<Rightarrow> ''('' @ join '', '' xs @ '')'')"

definition py_list :: "string list \<Rightarrow> string" where
  "py_list xs = ''['' @ join '', '' xs @ '']''"

definition str_dict :: "int shape \<Rightarrow> string" where
  "str_dict shape =
     ''{'vertices': '' @ py_list (map (\<lambda>v. py_tuple (map py_int v)) (vertices shape)) @
     '', 'faces': '' @ py_list (map (\<lambda>f. py_tuple (map py_int f)) (faces shape)) @ ''}''"

text \<open>
  The two lists of a shape print the same way: a list of tuples of integers.
\<close>

definition py_tuples :: "int list list \<Rightarrow> string" where
  "py_tuples vs = py_list (map (\<lambda>v. py_tuple (map py_int v)) vs)"

text \<open>
  What is between the parentheses of a tuple: Python writes a comma after the only
  element of a tuple of one.
\<close>

definition tuple_body :: "string list \<Rightarrow> string" where
  "tuple_body xs = (case xs of [x] \<Rightarrow> x @ '','' | _ \<Rightarrow> join '', '' xs)"

text \<open>
  To read a printed shape back: the characters of a printed integer and the number its
  digits stand for, the strings that can be a printed integer, the strings that can be a
  printed tuple, and the first tuple of a string.
\<close>

definition digit_chars :: "char set" where
  "digit_chars = set ''0123456789''"

definition digit_val :: "char \<Rightarrow> nat" where
  "digit_val c = of_char c - 48"

definition num_of :: "string \<Rightarrow> nat" where
  "num_of s = foldl (\<lambda>a c. 10 * a + digit_val c) 0 s"

definition int_chars :: "char set" where
  "int_chars = insert CHR ''-'' digit_chars"

definition int_strings :: "string set" where
  "int_strings = {s. s \<noteq> [] \<and> set s \<subseteq> int_chars}"

definition tuple_strings :: "string set" where
  "tuple_strings = {s. \<exists>b. s = b @ '')'' \<and> CHR '')'' \<notin> set b \<and> CHR 0x27 \<notin> set b}"

definition tuple_first :: "string \<Rightarrow> string" where
  "tuple_first s = takeWhile (\<lambda>c. c \<noteq> CHR '')'') s @ '')''"

subsection \<open>Examples\<close>

text \<open>The rectangle of \<open>test_render\<close>.\<close>

definition TestRect :: "'f::{zero,plus,minus} \<Rightarrow> 'f \<Rightarrow> 'f \<Rightarrow> 'f \<Rightarrow> 'f shape" where
  "TestRect x y w h =
     \<lparr>vertices = [ [x, y, 0], [x + w, y, 0], [x + w, y - h, 0], [x, y - h, 0] ],
      faces = [ [0, 1, 2], [2, 3, 0] ]\<rparr>"

definition unit_square :: "int shape" where
  "unit_square = TestRect 0 1 1 1"

definition no_faces :: "int shape" where
  "no_faces = \<lparr>vertices = [ [0, 0, 0], [1, 0, 0], [1, 1, 0] ], faces = []\<rparr>"

definition huge :: "int shape" where
  "huge = \<lparr>vertices = [ [0, 0, 0], [2 ^ 1024, 0, 0], [1, 1, 0] ], faces = [ [0, 1, 2] ]\<rparr>"

text \<open>
  The bindings of the examples: an integer of at most \<open>2 ^ 24\<close> in magnitude is a C float
  as it is. \<open>ctypes\<close> rounds a larger integer, and raises \<open>OverflowError\<close> for one that
  is too large for a float, as \<open>2 ^ 1024\<close> is; these bindings stand in for it on the small
  integers and raise for every other one.
\<close>

definition small_GLfloat :: "int \<Rightarrow> error + int" where
  "small_GLfloat i = (if \<bar>i\<bar> \<le> 2 ^ 24 then Inr i else Inl OverflowError)"

text \<open>
  A sketch of 600 by 400 with white fill, black stroke and a grey background, and a
  context whose driver accepts both shaders. The renderer is new: \<open>__init__\<close> has run,
  \<open>initialize\<close> has not.
\<close>

definition new_world :: "bool \<Rightarrow> bool \<Rightarrow> (int, int) world" where
  "new_world fill stroke =
     OpenGLRenderer_init 1
       \<lparr>sketch_attrs =
          \<lparr>width = 600, height = 400,
           fill_enabled = fill, fill_color = \<lparr>normalized = (1, 1, 1, 1)\<rparr>,
           stroke_enabled = stroke, stroke_color = \<lparr>normalized = (0, 0, 0, 1)\<rparr>,
           background_color = \<lparr>normalized = (3, 3, 3, 1)\<rparr>\<rparr>,
        shader_prog = \<lparr>pid = 0, attached = [], uniforms = Map.empty\<rparr>,
        geoms = Map.empty,
        gl = \<lparr>calls = [], next_buffer = 1, uniform_value = Map.empty,
              compiles = (\<lambda>k src. True), links = (\<lambda>ks. True),
              attrib_location = (\<lambda>name. 0), GLfloat_of = small_GLfloat\<rparr>\<rparr>"

definition ready_world :: "bool \<Rightarrow> bool \<Rightarrow> (int, int) world" where
  "ready_world fill stroke = snd (initialize (new_world fill stroke))"

subsection \<open>What render is expected to do\<close>

text \<open>
  \<open>initialize\<close> has registered the uniform \<open>fill_color\<close> with the shader program, so
  that \<open>set_uniform_data\<close> finds it.
\<close>

definition registered :: "('n, 'f) world \<Rightarrow> bool" where
  "registered w = (uniforms (shader_prog w) ''fill_color'' \<noteq> None)"

text \<open>
  The entry \<open>render\<close> draws from: the cached one, or the one \<open>_create_buffers\<close> makes
  from the next two buffer names.
\<close>

definition entry_used :: "('n shape \<Rightarrow> string) \<Rightarrow> 'n shape \<Rightarrow> ('n, 'f) world \<Rightarrow> geom" where
  "entry_used fp shape w =
     (case geoms w (fp shape) of
        Some g \<Rightarrow> g
      | None \<Rightarrow> \<lparr>vertex_buffer = next_buffer (gl w),
                  index_buffer = Suc (next_buffer (gl w)),
                  num_elements = length (concat (faces shape))\<rparr>)"

text \<open>
  The coordinates of a shape convert when \<open>ctypes\<close> makes an array of \<open>GLfloat\<close> of them
  without raising; the array is then the shape's vertex data.
\<close>

definition coordinates_convert :: "'n shape \<Rightarrow> ('n, 'f) world \<Rightarrow> bool" where
  "coordinates_convert shape w =
     (case GLfloat_array (GLfloat_of (gl w)) (concat (vertices shape)) of
        Inl e \<Rightarrow> False
      | Inr vs \<Rightarrow> True)"

definition vertex_data :: "'n shape \<Rightarrow> ('n, 'f) world \<Rightarrow> 'f list" where
  "vertex_data shape w =
     (case GLfloat_array (GLfloat_of (gl w)) (concat (vertices shape)) of
        Inl e \<Rightarrow> []
      | Inr vs \<Rightarrow> vs)"

text \<open>
  \<open>_create_buffers\<close> returns a key when the shape is cached or its coordinates convert.
\<close>

definition key_returned :: "('n shape \<Rightarrow> string) \<Rightarrow> 'n shape \<Rightarrow> ('n, 'f) world \<Rightarrow> bool" where
  "key_returned fp shape w = (geoms w (fp shape) \<noteq> None \<or> coordinates_convert shape w)"

text \<open>
  The calls of \<open>_create_buffers\<close>: none for a cached shape, three up to the conversion
  that raises, nine otherwise.
\<close>

definition upload_calls :: "('n shape \<Rightarrow> string) \<Rightarrow> 'n shape \<Rightarrow> ('n, 'f) world \<Rightarrow> 'f gl_call list" where
  "upload_calls fp shape w =
     (if geoms w (fp shape) \<noteq> None then []
      else [GlGenBuffers (next_buffer (gl w)), GlGenBuffers (Suc (next_buffer (gl w))),
            GlBindBuffer GL_ARRAY_BUFFER (next_buffer (gl w))] @
           (if coordinates_convert shape w
            then [GlBufferData GL_ARRAY_BUFFER (4 * length (vertex_data shape w))
                    (GLfloats (vertex_data shape w)) GL_STATIC_DRAW,
                  GlBindBuffer GL_ELEMENT_ARRAY_BUFFER (Suc (next_buffer (gl w))),
                  GlBufferData GL_ELEMENT_ARRAY_BUFFER (4 * length (concat (faces shape)))
                    (GLuints (GLuint_array (concat (faces shape)))) GL_STATIC_DRAW,
                  GlGetAttribLocation (pid (shader_prog w)) ''position'',
                  GlEnableVertexAttribArray (attrib_location (gl w) ''position''),
                  GlVertexAttribPointer (attrib_location (gl w) ''position'') 3 GL_FLOAT
                    False 0 0]
            else []))"

text \<open>The calls of the two branches of \<open>_draw_buffers\<close>.\<close>

definition fill_calls :: "geom \<Rightarrow> ('n, 'f) world \<Rightarrow> 'f gl_call list" where
  "fill_calls g w =
     (if fill_enabled (sketch_attrs w) \<and> registered w
      then [GlUniform4f ''fill_color'' (normalized (fill_color (sketch_attrs w))),
            GlBindBuffer GL_ELEMENT_ARRAY_BUFFER (index_buffer g),
            GlDrawElements GL_TRIANGLES (num_elements g) GL_UNSIGNED_INT 0]
      else [])"

definition stroke_calls :: "geom \<Rightarrow> ('n, 'f) world \<Rightarrow> 'f gl_call list" where
  "stroke_calls g w =
     (if stroke_enabled (sketch_attrs w) \<and> registered w
      then [GlUniform4f ''fill_color'' (normalized (stroke_color (sketch_attrs w))),
            GlDrawElements GL_LINE_LOOP (num_elements g) GL_UNSIGNED_INT 0]
      else [])"

text \<open>The new world of the examples on a driver whose compiler rejects every shader.\<close>

definition rejecting_world :: "(int, int) world" where
  "rejecting_world =
     (new_world True False)\<lparr>gl := (gl (new_world True False))\<lparr>compiles := (\<lambda>k src. False)\<rparr>\<rparr>"

section \<open>What each method does to the world\<close>

lemma emit_simps [simp]:
  "sketch_attrs (emit c w) = sketch_attrs w"
  "shader_prog (emit c w) = shader_prog w"
  "geoms (emit c w) = geoms w"
  "calls (gl (emit c w)) = calls (gl w) @ [c]"
  "next_buffer (gl (emit c w)) = next_buffer (gl w)"
  "uniform_value (gl (emit c w)) = uniform_value (gl w)"
  "compiles (gl (emit c w)) = compiles (gl w)"
  "links (gl (emit c w)) = links (gl w)"
  "attrib_location (gl (emit c w)) = attrib_location (gl w)"
  "GLfloat_of (gl (emit c w)) = GLfloat_of (gl w)"
  by (simp_all add: emit_def)

lemmas gl_defs = glEnable_def glDepthFunc_def glViewport_def glGenBuffers_def glBindBuffer_def
  glBufferData_def glGetAttribLocation_def glEnableVertexAttribArray_def
  glVertexAttribPointer_def glDrawElements_def glClearColor_def glClear_def glUniform4f_def

lemma length_GLuint_array [simp]: "length (GLuint_array xs) = length xs"
  by (simp add: GLuint_array_def)

lemma create_buffers_fst:
  "fst (create_buffers fp s w) =
     (if geoms w (fp s) \<noteq> None then Inr (fp s)
      else case GLfloat_array (GLfloat_of (gl w)) (concat (vertices s)) of
             Inl e \<Rightarrow> Inl e
           | Inr vs \<Rightarrow> Inr (fp s))"
  by (simp add: create_buffers_def Let_def split_def gl_defs split: sum.splits)

lemma create_buffers_returns:
  "key_returned fp s w \<Longrightarrow> fst (create_buffers fp s w) = Inr (fp s)"
  by (auto simp: create_buffers_fst key_returned_def coordinates_convert_def split: sum.splits)

lemma create_buffers_raises:
  "\<not> key_returned fp s w \<Longrightarrow>
   \<exists>e. GLfloat_array (GLfloat_of (gl w)) (concat (vertices s)) = Inl e \<and>
       fst (create_buffers fp s w) = Inl e"
  by (auto simp: create_buffers_fst key_returned_def coordinates_convert_def split: sum.splits)

lemma create_buffers_attrs: "sketch_attrs (snd (create_buffers fp s w)) = sketch_attrs w"
  by (simp add: create_buffers_def Let_def split_def gl_defs split: sum.splits)

lemma create_buffers_prog: "shader_prog (snd (create_buffers fp s w)) = shader_prog w"
  by (simp add: create_buffers_def Let_def split_def gl_defs split: sum.splits)

lemma create_buffers_uniform: "uniform_value (gl (snd (create_buffers fp s w))) = uniform_value (gl w)"
  by (simp add: create_buffers_def Let_def split_def gl_defs split: sum.splits)

lemma create_buffers_GLfloat_of: "GLfloat_of (gl (snd (create_buffers fp s w))) = GLfloat_of (gl w)"
  by (simp add: create_buffers_def Let_def split_def gl_defs split: sum.splits)

lemma create_buffers_location:
  "attrib_location (gl (snd (create_buffers fp s w))) = attrib_location (gl w)"
  by (simp add: create_buffers_def Let_def split_def gl_defs split: sum.splits)

lemma create_buffers_geoms:
  "geoms (snd (create_buffers fp s w)) =
     (if geoms w (fp s) = None \<and> coordinates_convert s w
      then (geoms w)(fp s \<mapsto> \<lparr>vertex_buffer = next_buffer (gl w),
                                 index_buffer = Suc (next_buffer (gl w)),
                                 num_elements = length (concat (faces s))\<rparr>)
      else geoms w)"
  by (simp add: create_buffers_def Let_def split_def gl_defs coordinates_convert_def
        split: sum.splits)

lemma create_buffers_upload_calls:
  "calls (gl (snd (create_buffers fp s w))) = calls (gl w) @ upload_calls fp s w"
  by (simp add: create_buffers_def Let_def split_def gl_defs upload_calls_def
        coordinates_convert_def vertex_data_def split: sum.splits)

lemma apply_setter_eq: "apply_setter f name v w = glUniform4f name v w"
  by (cases f) simp

lemma and_then_simps [simp]:
  "and_then (Inl e, w) k = (Inl e, w)"
  "and_then (Inr a, w) k = k a w"
  "and_then (ok w) k' = k' () w"
  by (simp_all add: and_then_def ok_def)

lemma set_uniform_data_unregistered:
  "uniforms (shader_prog w) name = None \<Longrightarrow>
   set_uniform_data name v w = (Inl (UnregisteredUniform name), w)"
  by (simp add: set_uniform_data_def)

lemma set_uniform_data_registered:
  "uniforms (shader_prog w) name = Some f \<Longrightarrow>
   set_uniform_data name v w = ok (glUniform4f name v w)"
  by (simp add: set_uniform_data_def apply_setter_eq)

lemma draw_buffers_missing:
  "geoms w k = None \<Longrightarrow> draw_buffers k w = (Inl (KeyError k), w)"
  by (simp add: draw_buffers_def)

lemma draw_buffers_attrs: "sketch_attrs (snd (draw_buffers k w)) = sketch_attrs w"
  by (cases "uniforms (shader_prog w) ''fill_color''")
     (simp_all add: draw_buffers_def Let_def split_def gl_defs ok_def
        set_uniform_data_unregistered set_uniform_data_registered split: option.splits)

lemma draw_buffers_geoms: "geoms (snd (draw_buffers k w)) = geoms w"
  by (cases "uniforms (shader_prog w) ''fill_color''")
     (simp_all add: draw_buffers_def Let_def split_def gl_defs ok_def
        set_uniform_data_unregistered set_uniform_data_registered split: option.splits)

lemma draw_buffers_prog: "shader_prog (snd (draw_buffers k w)) = shader_prog w"
  by (cases "uniforms (shader_prog w) ''fill_color''")
     (simp_all add: draw_buffers_def Let_def split_def gl_defs ok_def
        set_uniform_data_unregistered set_uniform_data_registered split: option.splits)

lemma draw_buffers_GLfloat_of: "GLfloat_of (gl (snd (draw_buffers k w))) = GLfloat_of (gl w)"
  by (cases "uniforms (shader_prog w) ''fill_color''")
     (simp_all add: draw_buffers_def Let_def split_def gl_defs ok_def
        set_uniform_data_unregistered set_uniform_data_registered split: option.splits)

lemma draw_buffers_registered:
  assumes "geoms w k = Some g" and "uniforms (shader_prog w) ''fill_color'' = Some f"
  shows "fst (draw_buffers k w) = Inr ()"
    and "calls (gl (snd (draw_buffers k w))) = calls (gl w) @ prelude g w @
           (if fill_enabled (sketch_attrs w)
            then [GlUniform4f ''fill_color'' (normalized (fill_color (sketch_attrs w))),
                  GlBindBuffer GL_ELEMENT_ARRAY_BUFFER (index_buffer g),
                  GlDrawElements GL_TRIANGLES (num_elements g) GL_UNSIGNED_INT 0]
            else []) @
           (if stroke_enabled (sketch_attrs w)
            then [GlUniform4f ''fill_color'' (normalized (stroke_color (sketch_attrs w))),
                  GlDrawElements GL_LINE_LOOP (num_elements g) GL_UNSIGNED_INT 0]
            else [])"
    and "uniform_value (gl (snd (draw_buffers k w))) =
           (if stroke_enabled (sketch_attrs w)
            then (uniform_value (gl w))(''fill_color'' \<mapsto> normalized (stroke_color (sketch_attrs w)))
            else if fill_enabled (sketch_attrs w)
            then (uniform_value (gl w))(''fill_color'' \<mapsto> normalized (fill_color (sketch_attrs w)))
            else uniform_value (gl w))"
  using assms
  by (simp_all add: draw_buffers_def Let_def split_def gl_defs ok_def prelude_def
        set_uniform_data_registered [where f = f])

lemma draw_buffers_unregistered:
  assumes "geoms w k = Some g" and "uniforms (shader_prog w) ''fill_color'' = None"
  shows "fst (draw_buffers k w) =
           (if fill_enabled (sketch_attrs w) \<or> stroke_enabled (sketch_attrs w)
            then Inl (UnregisteredUniform ''fill_color'') else Inr ())"
    and "calls (gl (snd (draw_buffers k w))) = calls (gl w) @ prelude g w"
    and "uniform_value (gl (snd (draw_buffers k w))) = uniform_value (gl w)"
  using assms
  by (simp_all add: draw_buffers_def Let_def split_def gl_defs ok_def prelude_def
        set_uniform_data_unregistered)

lemmas shader_defs = shader_compile_def shader_attach_def program_link_def
  program_activate_def add_uniform_def

lemma initialize_fst: "(fst (initialize w) = Inr ()) = init_succeeds w"
  by (simp add: initialize_def init_shaders_def Let_def gl_defs shader_defs ok_def
        init_succeeds_def)

lemma initialize_attrs: "sketch_attrs (snd (initialize w)) = sketch_attrs w"
  by (simp add: initialize_def init_shaders_def Let_def gl_defs shader_defs ok_def)

lemma initialize_geoms: "geoms (snd (initialize w)) = geoms w"
  by (simp add: initialize_def init_shaders_def Let_def gl_defs shader_defs ok_def)

lemma initialize_uniforms:
  "uniforms (shader_prog (snd (initialize w))) =
     (if init_succeeds w then (uniforms (shader_prog w))(''fill_color'' \<mapsto> Uniform4f)
      else uniforms (shader_prog w))"
  by (simp add: initialize_def init_shaders_def Let_def gl_defs shader_defs ok_def
        init_succeeds_def)

lemma initialize_uniform_value:
  "uniform_value (gl (snd (initialize w))) = uniform_value (gl w)"
  by (simp add: initialize_def init_shaders_def Let_def gl_defs shader_defs ok_def)

lemma initialize_GLfloat_of: "GLfloat_of (gl (snd (initialize w))) = GLfloat_of (gl w)"
  by (simp add: initialize_def init_shaders_def Let_def gl_defs shader_defs ok_def)

lemma initialize_first_calls:
  "take 3 (issued w (snd (initialize w))) =
     [GlEnable GL_DEPTH_TEST, GlDepthFunc GL_LEQUAL,
      GlViewport 0 0 (width (sketch_attrs w)) (height (sketch_attrs w))]"
  by (simp add: issued_def initialize_def init_shaders_def Let_def gl_defs shader_defs ok_def)

lemma clear_simps:
  "fst (clear w) = Inr ()"
  "sketch_attrs (snd (clear w)) = sketch_attrs w"
  "geoms (snd (clear w)) = geoms w"
  "shader_prog (snd (clear w)) = shader_prog w"
  "uniform_value (gl (snd (clear w))) = uniform_value (gl w)"
  "GLfloat_of (gl (snd (clear w))) = GLfloat_of (gl w)"
  "calls (gl (snd (clear w))) = calls (gl w) @
     [GlClearColor (normalized (background_color (sketch_attrs w))),
      GlClear [GL_COLOR_BUFFER_BIT, GL_DEPTH_BUFFER_BIT] ]"
  by (simp_all add: clear_def Let_def gl_defs ok_def)

lemma issued_append: "calls (gl w') = calls (gl w) @ cs \<Longrightarrow> issued w w' = cs"
  by (simp add: issued_def)

lemma render_eq:
  "render fp s w =
     (case fst (create_buffers fp s w) of
        Inl e \<Rightarrow> (Inl e, snd (create_buffers fp s w))
      | Inr k \<Rightarrow> draw_buffers k (snd (create_buffers fp s w)))"
  by (cases "create_buffers fp s w") (simp add: render_def and_then_def split: sum.splits)

lemma render_returned:
  "key_returned fp s w \<Longrightarrow> render fp s w = draw_buffers (fp s) (snd (create_buffers fp s w))"
  by (simp add: render_eq create_buffers_returns)

lemma render_raised:
  assumes "\<not> key_returned fp s w"
  shows "snd (render fp s w) = snd (create_buffers fp s w)"
    and "\<exists>e. GLfloat_array (GLfloat_of (gl w)) (concat (vertices s)) = Inl e \<and>
             fst (render fp s w) = Inl e"
  using create_buffers_raises [OF assms] by (auto simp: render_eq)

lemma render_attrs: "sketch_attrs (snd (render fp s w)) = sketch_attrs w"
  by (cases "key_returned fp s w")
     (simp_all add: render_returned render_raised draw_buffers_attrs create_buffers_attrs)

lemma render_prog: "shader_prog (snd (render fp s w)) = shader_prog w"
  by (cases "key_returned fp s w")
     (simp_all add: render_returned render_raised draw_buffers_prog create_buffers_prog)

lemma render_GLfloat_of: "GLfloat_of (gl (snd (render fp s w))) = GLfloat_of (gl w)"
  by (cases "key_returned fp s w")
     (simp_all add: render_returned render_raised draw_buffers_GLfloat_of
        create_buffers_GLfloat_of)

lemma render_geoms: "geoms (snd (render fp s w)) = geoms (snd (create_buffers fp s w))"
  by (cases "key_returned fp s w")
     (simp_all add: render_returned render_raised draw_buffers_geoms)

lemma ready_world_attrs: "sketch_attrs (ready_world fill stroke) =
    \<lparr>width = 600, height = 400,
     fill_enabled = fill, fill_color = \<lparr>normalized = (1, 1, 1, 1)\<rparr>,
     stroke_enabled = stroke, stroke_color = \<lparr>normalized = (0, 0, 0, 1)\<rparr>,
     background_color = \<lparr>normalized = (3, 3, 3, 1)\<rparr>\<rparr>"
  by (simp add: ready_world_def initialize_attrs new_world_def OpenGLRenderer_init_def)

lemma draw_buffers_fst:
  assumes "geoms w k = Some g"
  shows "fst (draw_buffers k w) =
           (if (fill_enabled (sketch_attrs w) \<or> stroke_enabled (sketch_attrs w)) \<and> \<not> registered w
            then Inl (UnregisteredUniform ''fill_color'') else Inr ())"
proof (cases "uniforms (shader_prog w) ''fill_color''")
  case None
  with draw_buffers_unregistered(1) [OF assms None] show ?thesis
    by (simp add: registered_def)
next
  case (Some f)
  with draw_buffers_registered(1) [OF assms Some] show ?thesis
    by (simp add: registered_def)
qed

lemma draw_buffers_calls:
  assumes "geoms w k = Some g"
  shows "calls (gl (snd (draw_buffers k w))) =
           calls (gl w) @ prelude g w @ fill_calls g w @ stroke_calls g w"
proof (cases "uniforms (shader_prog w) ''fill_color''")
  case None
  with draw_buffers_unregistered(2) [OF assms None] show ?thesis
    by (simp add: registered_def fill_calls_def stroke_calls_def)
next
  case (Some f)
  with draw_buffers_registered(2) [OF assms Some] show ?thesis
    by (simp add: registered_def fill_calls_def stroke_calls_def)
qed

lemma draw_buffers_uniform_value:
  assumes "geoms w k = Some g"
  shows "uniform_value (gl (snd (draw_buffers k w))) =
           (if stroke_enabled (sketch_attrs w) \<and> registered w
            then (uniform_value (gl w))(''fill_color'' \<mapsto> normalized (stroke_color (sketch_attrs w)))
            else if fill_enabled (sketch_attrs w) \<and> registered w
            then (uniform_value (gl w))(''fill_color'' \<mapsto> normalized (fill_color (sketch_attrs w)))
            else uniform_value (gl w))"
proof (cases "uniforms (shader_prog w) ''fill_color''")
  case None
  with draw_buffers_unregistered(3) [OF assms None] show ?thesis
    by (simp add: registered_def)
next
  case (Some f)
  with draw_buffers_registered(3) [OF assms Some] show ?thesis
    by (simp add: registered_def)
qed

lemma create_buffers_entry:
  "key_returned fp s w \<Longrightarrow>
   geoms (snd (create_buffers fp s w)) (fp s) = Some (entry_used fp s w)"
  by (cases "geoms w (fp s)")
     (simp_all add: create_buffers_geoms entry_used_def key_returned_def)

lemma create_buffers_registered:
  "registered (snd (create_buffers fp s w)) = registered w"
  by (simp add: registered_def create_buffers_prog)

lemma render_fst:
  "key_returned fp s w \<Longrightarrow>
   fst (render fp s w) =
     (if (fill_enabled (sketch_attrs w) \<or> stroke_enabled (sketch_attrs w)) \<and> \<not> registered w
      then Inl (UnregisteredUniform ''fill_color'') else Inr ())"
  by (simp add: render_returned draw_buffers_fst [OF create_buffers_entry]
        create_buffers_attrs create_buffers_registered)

lemma render_calls:
  "calls (gl (snd (render fp s w))) = calls (gl w) @ upload_calls fp s w @
     (if key_returned fp s w
      then prelude (entry_used fp s w) w @ fill_calls (entry_used fp s w) w @
           stroke_calls (entry_used fp s w) w
      else [])"
proof (cases "key_returned fp s w")
  case True
  then show ?thesis
    by (simp add: render_returned draw_buffers_calls [OF create_buffers_entry]
          create_buffers_upload_calls prelude_def fill_calls_def stroke_calls_def
          create_buffers_attrs create_buffers_registered create_buffers_prog
          create_buffers_location)
next
  case False
  then show ?thesis
    by (simp add: render_raised create_buffers_upload_calls)
qed

lemma render_issued:
  "issued w (snd (render fp s w)) = upload_calls fp s w @
     (if key_returned fp s w
      then prelude (entry_used fp s w) w @ fill_calls (entry_used fp s w) w @
           stroke_calls (entry_used fp s w) w
      else [])"
  by (rule issued_append) (rule render_calls)

lemma render_uniform_value:
  "uniform_value (gl (snd (render fp s w))) =
     (if key_returned fp s w \<and> stroke_enabled (sketch_attrs w) \<and> registered w
      then (uniform_value (gl w))(''fill_color'' \<mapsto> normalized (stroke_color (sketch_attrs w)))
      else if key_returned fp s w \<and> fill_enabled (sketch_attrs w) \<and> registered w
      then (uniform_value (gl w))(''fill_color'' \<mapsto> normalized (fill_color (sketch_attrs w)))
      else uniform_value (gl w))"
proof (cases "key_returned fp s w")
  case True
  then show ?thesis
    by (simp add: render_returned draw_buffers_uniform_value [OF create_buffers_entry]
          create_buffers_attrs create_buffers_registered create_buffers_uniform)
next
  case False
  then show ?thesis
    by (simp add: render_raised create_buffers_uniform)
qed

lemma render_geoms_entry:
  "geoms (snd (render fp s w)) =
     (if key_returned fp s w then (geoms w)(fp s \<mapsto> entry_used fp s w) else geoms w)"
  by (cases "geoms w (fp s)")
     (auto simp add: render_geoms create_buffers_geoms entry_used_def key_returned_def)

lemma filter_draw_simps [simp]:
  "filter is_draw (upload_calls fp s w) = []"
  "filter is_draw (prelude g w) = []"
  "filter is_upload (prelude g w) = []"
  "filter is_upload (fill_calls g w) = []"
  "filter is_upload (stroke_calls g w) = []"
  "filter is_uniform (upload_calls fp s w) = []"
  "filter is_uniform (prelude g w) = []"
  "filter (is_draw_mode m) (upload_calls fp s w) = []"
  "filter (is_draw_mode m) (prelude g w) = []"
  by (simp_all add: upload_calls_def prelude_def fill_calls_def stroke_calls_def)

lemma issued_trans:
  "calls (gl w1) = calls (gl w) @ xs \<Longrightarrow> calls (gl w2) = calls (gl w1) @ ys \<Longrightarrow>
   issued w w2 = issued w w1 @ issued w1 w2"
  by (simp add: issued_def)

lemma render_registered: "registered (snd (render fp s w)) = registered w"
  by (simp add: registered_def render_prog)

lemma entry_used_cached:
  "geoms w (fp s) = Some g \<Longrightarrow> entry_used fp s w = g"
  by (simp add: entry_used_def)

lemma entry_used_agrees:
  "entry_agrees fp s w \<Longrightarrow> num_elements (entry_used fp s w) = length (concat (faces s))"
  by (simp add: entry_agrees_def entry_used_def split: option.splits)

lemma hooks_simps [simp]:
  "pre_render w = (Inr (), w)" "post_render w = (Inr (), w)" "cleanup w = (Inr (), w)"
  by (simp_all add: pre_render_def post_render_def cleanup_def BaseRenderer_pre_render_def
        BaseRenderer_post_render_def BaseRenderer_cleanup_def)

lemma perform_keeps_entry:
  assumes "geoms w k = Some g"
  shows "geoms (snd (perform fp c w)) k = Some g"
proof (cases c)
  case (Render s)
  with assms show ?thesis
    by (cases "fp s = k") (simp_all add: render_geoms_entry entry_used_def)
qed (simp_all add: initialize_geoms clear_simps assms)

lemma perform_returned:
  "fst (perform fp (Render s) w) = Inr u \<Longrightarrow> key_returned fp s w"
  using render_raised(2) [of fp s w] by auto

lemma perform_dom:
  "fst (perform fp c w) = Inr u \<Longrightarrow>
   dom (geoms (snd (perform fp c w))) = dom (geoms w) \<union> fp ` set (shapes_of [c])"
proof (cases c)
  case (Render s)
  assume "fst (perform fp c w) = Inr u"
  with Render have "key_returned fp s w" by (simp add: perform_returned)
  with Render show ?thesis by (simp add: render_geoms_entry)
qed (simp_all add: initialize_geoms clear_simps)

lemma run_Cons_snd:
  "snd (run fp (c # cs) w) =
     (case fst (perform fp c w) of
        Inl e \<Rightarrow> snd (perform fp c w)
      | Inr u \<Rightarrow> snd (run fp cs (snd (perform fp c w))))"
  by (cases "perform fp c w") (auto simp: and_then_def split: sum.splits)

lemma run_Cons_fst:
  "fst (run fp (c # cs) w) =
     (case fst (perform fp c w) of
        Inl e \<Rightarrow> Inl e
      | Inr u \<Rightarrow> fst (run fp cs (snd (perform fp c w))))"
  by (cases "perform fp c w") (auto simp: and_then_def split: sum.splits)

lemma run_keeps_entry:
  "geoms w k = Some g \<Longrightarrow> geoms (snd (run fp cs w)) k = Some g"
proof (induction cs arbitrary: w)
  case Nil
  then show ?case by (simp add: ok_def)
next
  case (Cons c cs)
  then show ?case
    by (simp add: run_Cons_snd perform_keeps_entry del: run.simps split: sum.splits)
qed

lemma shapes_of_Cons: "shapes_of (c # cs) = shapes_of [c] @ shapes_of cs"
  by (cases c) simp_all

lemma run_dom:
  "fst (run fp cs w) = Inr () \<Longrightarrow>
   dom (geoms (snd (run fp cs w))) = dom (geoms w) \<union> fp ` set (shapes_of cs)"
proof (induction cs arbitrary: w)
  case Nil
  then show ?case by (simp add: ok_def)
next
  case (Cons c cs)
  from Cons.prems obtain u where u: "fst (perform fp c w) = Inr u"
    and rest: "fst (run fp cs (snd (perform fp c w))) = Inr ()"
    by (auto simp: run_Cons_fst simp del: run.simps split: sum.splits)
  have "dom (geoms (snd (run fp (c # cs) w))) =
          dom (geoms (snd (perform fp c w))) \<union> fp ` set (shapes_of cs)"
    using Cons.IH [OF rest] u by (simp add: run_Cons_snd del: run.simps)
  also have "\<dots> = dom (geoms w) \<union> fp ` set (shapes_of (c # cs))"
    by (simp add: perform_dom [OF u] shapes_of_Cons [of c cs] Un_assoc image_Un)
  finally show ?case .
qed

lemma initialize_registers:
  "fst (initialize w) = Inr () \<Longrightarrow> registered (snd (initialize w))"
  by (simp add: initialize_fst registered_def initialize_uniforms)

lemma perform_registered:
  "registered w \<Longrightarrow> registered (snd (perform fp c w))"
  by (cases c)
     (simp_all add: registered_def initialize_uniforms render_prog clear_simps)

lemma perform_entry_agrees:
  assumes same: "\<And>s s'. fp s = fp s' \<Longrightarrow> length (concat (faces s)) = length (concat (faces s'))"
    and inv: "\<And>s. entry_agrees fp s w"
  shows "entry_agrees fp s (snd (perform fp c w))"
proof (cases c)
  case (Render s')
  show ?thesis
  proof (cases "key_returned fp s' w \<and> fp s' = fp s")
    case True
    have "num_elements (entry_used fp s' w) = length (concat (faces s'))"
      using inv by (rule entry_used_agrees)
    with True same [of s' s] show ?thesis
      by (simp add: Render entry_agrees_def render_geoms_entry)
  next
    case False
    with inv [of s] show ?thesis
      by (auto simp: Render entry_agrees_def render_geoms_entry)
  qed
qed (use inv [of s] in \<open>simp_all add: entry_agrees_def initialize_geoms clear_simps\<close>)

lemma new_renderer_entry_agrees:
  "entry_agrees fp s (OpenGLRenderer_init p w)"
  by (simp add: entry_agrees_def OpenGLRenderer_init_def)

lemma new_world_init_succeeds: "init_succeeds (new_world fill stroke)"
  by (simp add: init_succeeds_def new_world_def OpenGLRenderer_init_def)

lemma ready_world_registered: "registered (ready_world fill stroke)"
  by (simp add: ready_world_def initialize_registers initialize_fst new_world_init_succeeds)

lemma ready_world_geoms: "geoms (ready_world fill stroke) = Map.empty"
  by (simp add: ready_world_def initialize_geoms new_world_def OpenGLRenderer_init_def)

lemma ready_world_entry_agrees: "entry_agrees fp s (ready_world fill stroke)"
  by (simp add: entry_agrees_def ready_world_geoms)

lemma ready_world_uniform_value: "uniform_value (gl (ready_world fill stroke)) = Map.empty"
  by (simp add: ready_world_def initialize_uniform_value new_world_def OpenGLRenderer_init_def)

lemma unit_square_faces: "faces unit_square = [ [0, 1, 2], [2, 3, 0] ]"
  by (simp add: unit_square_def TestRect_def)

lemma perform_GLfloat_of: "GLfloat_of (gl (snd (perform fp c w))) = GLfloat_of (gl w)"
  by (cases c) (simp_all add: initialize_GLfloat_of render_GLfloat_of clear_simps)

lemma perform_converts:
  "coordinates_convert s (snd (perform fp c w)) = coordinates_convert s w"
  by (simp add: coordinates_convert_def perform_GLfloat_of)

lemma run_GLfloat_of: "GLfloat_of (gl (snd (run fp cs w))) = GLfloat_of (gl w)"
proof (induction cs arbitrary: w)
  case Nil
  then show ?case by (simp add: ok_def)
next
  case (Cons c cs)
  then show ?case
    by (simp add: run_Cons_snd perform_GLfloat_of del: run.simps split: sum.splits)
qed

lemma run_converts:
  "coordinates_convert s (snd (run fp cs w)) = coordinates_convert s w"
  by (simp add: coordinates_convert_def run_GLfloat_of)

lemma perform_fst:
  assumes "registered w" and "c \<noteq> Initialize"
    and "\<And>s. s \<in> set (shapes_of [c]) \<Longrightarrow> coordinates_convert s w"
  shows "fst (perform fp c w) = Inr ()"
proof (cases c)
  case (Render s)
  with assms(3) have "key_returned fp s w" by (simp add: key_returned_def)
  with Render assms(1) show ?thesis by (simp add: render_fst)
qed (use assms(2) in \<open>simp_all add: clear_simps\<close>)

lemma run_succeeds:
  "registered w \<Longrightarrow> Initialize \<notin> set cs \<Longrightarrow>
   (\<And>s. s \<in> set (shapes_of cs) \<Longrightarrow> coordinates_convert s w) \<Longrightarrow>
   fst (run fp cs w) = Inr ()"
proof (induction cs arbitrary: w)
  case Nil
  then show ?case by (simp add: ok_def)
next
  case (Cons c cs)
  have all: "\<And>s. s \<in> set (shapes_of [c]) \<or> s \<in> set (shapes_of cs) \<Longrightarrow> coordinates_convert s w"
    using Cons.prems(3) by (subst (asm) shapes_of_Cons) auto
  from Cons.prems have c: "c \<noteq> Initialize" and cs: "Initialize \<notin> set cs" by auto
  have first: "fst (perform fp c w) = Inr ()"
    using Cons.prems(1) c all by (intro perform_fst) auto
  have "fst (run fp cs (snd (perform fp c w))) = Inr ()"
    using Cons.prems(1) cs all
    by (intro Cons.IH) (auto simp: perform_registered perform_converts)
  with first show ?case by (simp add: run_Cons_fst del: run.simps)
qed

lemma perform_attrs: "sketch_attrs (snd (perform fp c w)) = sketch_attrs w"
  by (cases c) (simp_all add: initialize_attrs render_attrs clear_simps)

lemma run_attrs: "sketch_attrs (snd (run fp cs w)) = sketch_attrs w"
proof (induction cs arbitrary: w)
  case Nil
  then show ?case by (simp add: ok_def)
next
  case (Cons c cs)
  then show ?case
    by (simp add: run_Cons_snd perform_attrs del: run.simps split: sum.splits)
qed

lemma example_fingerprints:
  "str_dict unit_square =
     ''{'vertices': [(0, 1, 0), (1, 1, 0), (1, 0, 0), (0, 0, 0)], 'faces': [(0, 1, 2), (2, 3, 0)]}''"
  "str_dict (TestRect 2 1 1 1) =
     ''{'vertices': [(2, 1, 0), (3, 1, 0), (3, 0, 0), (2, 0, 0)], 'faces': [(0, 1, 2), (2, 3, 0)]}''"
  by code_simp+

lemma small_GLfloat_array:
  "(\<And>x. x \<in> set xs \<Longrightarrow> \<bar>x\<bar> \<le> 2 ^ 24) \<Longrightarrow> GLfloat_array small_GLfloat xs = Inr xs"
  by (induction xs) (simp_all add: small_GLfloat_def)

lemma ready_world_GLfloat_of: "GLfloat_of (gl (ready_world fill stroke)) = small_GLfloat"
  by (simp add: ready_world_def initialize_GLfloat_of new_world_def OpenGLRenderer_init_def)

lemma ready_world_converts:
  "coordinates_convert unit_square (ready_world fill stroke)"
  "coordinates_convert (TestRect 2 1 1 1) (ready_world fill stroke)"
  "coordinates_convert no_faces (ready_world fill stroke)"
  by (simp_all add: coordinates_convert_def ready_world_GLfloat_of unit_square_def
        TestRect_def no_faces_def small_GLfloat_def)

lemma ready_world_vertex_data:
  "vertex_data unit_square (ready_world fill stroke) = [0, 1, 0, 1, 1, 0, 1, 0, 0, 0, 0, 0]"
  by (simp add: vertex_data_def ready_world_GLfloat_of unit_square_def TestRect_def
        small_GLfloat_def)

text \<open>
  The error path of \<open>_create_buffers\<close> at a shape with the coordinate \<open>2 ^ 1024\<close>, for
  which \<open>ctypes\<close> raises \<open>OverflowError\<close>: \<open>render\<close> raises it after the two buffer names
  were made and the first was bound, nothing is cached, and rendering the shape again
  makes two more names.
\<close>

lemma huge_does_not_convert: "\<not> key_returned str_dict huge (ready_world fill stroke)"
  by (simp add: key_returned_def coordinates_convert_def ready_world_geoms
        ready_world_GLfloat_of huge_def small_GLfloat_def)

lemma render_huge_raises:
  "fst (render str_dict huge (ready_world True False)) = Inl OverflowError"
  "geoms (snd (render str_dict huge (ready_world True False))) = Map.empty"
  "issued (ready_world True False) (snd (render str_dict huge (ready_world True False))) =
     [GlGenBuffers 1, GlGenBuffers 2, GlBindBuffer GL_ARRAY_BUFFER 1]"
proof -
  let ?w = "ready_world True False"
  have no: "\<not> key_returned str_dict huge ?w"
    by (rule huge_does_not_convert)
  have "GLfloat_array (GLfloat_of (gl ?w)) (concat (vertices huge)) = Inl OverflowError"
    by (simp add: ready_world_GLfloat_of huge_def small_GLfloat_def)
  with render_raised(2) [OF no] show "fst (render str_dict huge ?w) = Inl OverflowError"
    by auto
  show "geoms (snd (render str_dict huge ?w)) = Map.empty"
    using no by (simp add: render_geoms_entry ready_world_geoms)
  have next_buffer: "next_buffer (gl ?w) = 1"
    by (simp add: ready_world_def initialize_def init_shaders_def Let_def gl_defs shader_defs
          ok_def new_world_def OpenGLRenderer_init_def)
  have "coordinates_convert huge ?w = False"
    using no by (simp add: key_returned_def)
  then show "issued ?w (snd (render str_dict huge ?w)) =
     [GlGenBuffers 1, GlGenBuffers 2, GlBindBuffer GL_ARRAY_BUFFER 1]"
    using no by (simp add: render_issued upload_calls_def ready_world_geoms next_buffer)
qed

text \<open>
  The two conditions on the world that the claims about drawing need hold through the
  life of a renderer: a successful \<open>initialize\<close> registers the uniform and no call
  unregisters it; a new renderer's cache is empty, and the cache goes on agreeing with
  every shape as long as shapes with the same fingerprint have as many face indices.
\<close>

lemma run_registered:
  "registered w \<Longrightarrow> registered (snd (run fp cs w))"
proof (induction cs arbitrary: w)
  case Nil
  then show ?case by (simp add: ok_def)
next
  case (Cons c cs)
  then show ?case
    by (simp add: run_Cons_snd perform_registered del: run.simps split: sum.splits)
qed

lemma run_entry_agrees:
  assumes same: "\<And>s s'. fp s = fp s' \<Longrightarrow> length (concat (faces s)) = length (concat (faces s'))"
  shows "(\<And>s. entry_agrees fp s w) \<Longrightarrow> entry_agrees fp s (snd (run fp cs w))"
proof (induction cs arbitrary: w s)
  case Nil
  then show ?case by (simp add: ok_def)
next
  case (Cons c cs)
  have step: "\<And>s. entry_agrees fp s (snd (perform fp c w))"
    using same Cons.prems by (rule perform_entry_agrees)
  show ?case
  proof (cases "fst (perform fp c w)")
    case (Inl e)
    then show ?thesis using step by (simp add: run_Cons_snd del: run.simps)
  next
    case (Inr u)
    then show ?thesis using Cons.IH [OF step] by (simp add: run_Cons_snd del: run.simps)
  qed
qed

lemma renderer_life:
  assumes same: "\<And>s s'. fp s = fp s' \<Longrightarrow> length (concat (faces s)) = length (concat (faces s'))"
    and init: "fst (initialize (OpenGLRenderer_init p v)) = Inr ()"
  shows "registered (snd (run fp cs (snd (initialize (OpenGLRenderer_init p v)))))"
    and "entry_agrees fp s (snd (run fp cs (snd (initialize (OpenGLRenderer_init p v)))))"
proof -
  show "registered (snd (run fp cs (snd (initialize (OpenGLRenderer_init p v)))))"
    using init by (intro run_registered initialize_registers)
  have "\<And>s. entry_agrees fp s (snd (initialize (OpenGLRenderer_init p v)))"
    by (simp add: entry_agrees_def initialize_geoms OpenGLRenderer_init_def)
  with same show "entry_agrees fp s (snd (run fp cs (snd (initialize (OpenGLRenderer_init p v)))))"
    by (rule run_entry_agrees)
qed

section \<open>Shapes of integers with the same fingerprint are the same shape\<close>

text \<open>
  \<open>str\<close> prints the two lists of a shape of integers so that they can be read back:
  an integer from its digits, a tuple up to its closing parenthesis, the vertices up to
  the first quote after them. So the fingerprint is injective on these shapes, and a
  renderer that is given only such shapes keeps a cache that agrees with every shape.
\<close>

lemma digit_in: "k < 10 \<Longrightarrow> ''0123456789'' ! k \<in> digit_chars"
  unfolding digit_chars_def by (rule nth_mem) simp

lemma digits_nonempty: "digits n \<noteq> []"
  by (subst digits.simps) simp

lemma digits_chars: "set (digits n) \<subseteq> digit_chars"
proof (induction n rule: digits.induct)
  case (1 n)
  show ?case
  proof (cases "n < 10")
    case True
    then show ?thesis
      using digit_in [of n] by (subst digits.simps) simp
  next
    case False
    have "n mod 10 < 10" by simp
    then have "''0123456789'' ! (n mod 10) \<in> digit_chars" by (rule digit_in)
    with False 1 show ?thesis
      by (subst digits.simps) simp
  qed
qed

lemma digit_val_nth:
  assumes "k < 10"
  shows "digit_val (''0123456789'' ! k) = k"
proof -
  from assms have "k < Suc (Suc (Suc (Suc (Suc (Suc (Suc (Suc (Suc (Suc 0)))))))))"
    by simp
  then show ?thesis
    by (auto simp: less_Suc_eq digit_val_def)
qed

lemma num_of_digits: "num_of (digits n) = n"
proof (induction n rule: digits.induct)
  case (1 n)
  show ?case
  proof (cases "n < 10")
    case True
    then show ?thesis
      by (subst digits.simps) (simp add: num_of_def digit_val_nth)
  next
    case False
    with 1 have "num_of (digits (n div 10)) = n div 10" by simp
    with False show ?thesis
      by (subst digits.simps) (simp add: num_of_def digit_val_nth)
  qed
qed

lemma digits_inj:
  assumes "digits m = digits n"
  shows "m = n"
proof -
  have "num_of (digits m) = num_of (digits n)"
    by (simp only: assms)
  then show ?thesis
    by (simp only: num_of_digits)
qed

lemma minus_not_digit: "CHR ''-'' \<notin> digit_chars"
  by (simp add: digit_chars_def)

lemma digits_no_minus: "digits n \<noteq> CHR ''-'' # s"
proof
  assume "digits n = CHR ''-'' # s"
  then have "CHR ''-'' \<in> set (digits n)" by simp
  with digits_chars [of n] minus_not_digit show False by blast
qed

lemma py_int_nonempty: "py_int i \<noteq> []"
  by (simp add: py_int_def digits_nonempty)

lemma py_int_chars: "set (py_int i) \<subseteq> insert CHR ''-'' digit_chars"
  using digits_chars [of "nat i"] digits_chars [of "nat (- i)"]
  by (auto simp: py_int_def)

lemma py_int_inj:
  assumes eq: "py_int i = py_int j"
  shows "i = j"
proof (cases "i < 0")
  case True
  show ?thesis
  proof (cases "j < 0")
    case True
    with \<open>i < 0\<close> eq have "digits (nat (- i)) = digits (nat (- j))"
      by (simp add: py_int_def)
    then have "nat (- i) = nat (- j)" by (rule digits_inj)
    with \<open>i < 0\<close> True show ?thesis by simp
  next
    case False
    with \<open>i < 0\<close> eq have "digits (nat j) = CHR ''-'' # digits (nat (- i))"
      by (simp add: py_int_def)
    then show ?thesis using digits_no_minus by blast
  qed
next
  case False
  show ?thesis
  proof (cases "j < 0")
    case True
    with \<open>\<not> i < 0\<close> eq have "digits (nat i) = CHR ''-'' # digits (nat (- j))"
      by (simp add: py_int_def)
    then show ?thesis using digits_no_minus by blast
  next
    case False
    with \<open>\<not> i < 0\<close> eq have "digits (nat i) = digits (nat j)"
      by (simp add: py_int_def)
    then have "nat i = nat j" by (rule digits_inj)
    with \<open>\<not> i < 0\<close> False show ?thesis by simp
  qed
qed

lemma int_chars_simps [simp]:
  "CHR '','' \<notin> int_chars" "CHR '' '' \<notin> int_chars" "CHR ''('' \<notin> int_chars"
  "CHR '')'' \<notin> int_chars" "CHR 0x27 \<notin> int_chars" "CHR ''['' \<notin> int_chars"
  "CHR '']'' \<notin> int_chars"
  by (simp_all add: int_chars_def digit_chars_def)

lemma py_int_in: "py_int i \<in> int_strings"
  using py_int_chars [of i] by (simp add: int_strings_def int_chars_def py_int_nonempty)

lemma join_Cons: "join sep (x # xs) = x @ (if xs = [] then [] else sep @ join sep xs)"
  by (cases xs) simp_all

lemma set_join: "set (join sep xs) \<subseteq> set sep \<union> \<Union> (set ` set xs)"
  by (induction sep xs rule: join.induct) auto

lemma join_inj:
  assumes first_sep: "\<And>x r. x \<in> V \<Longrightarrow> first (x @ sep @ r) = x"
    and first_last: "\<And>x. x \<in> V \<Longrightarrow> first x = x"
    and nonempty: "\<And>x. x \<in> V \<Longrightarrow> x \<noteq> []"
    and sep: "sep \<noteq> []"
  shows "set xs \<subseteq> V \<Longrightarrow> set ys \<subseteq> V \<Longrightarrow> join sep xs = join sep ys \<Longrightarrow> xs = ys"
proof (induction xs arbitrary: ys)
  case Nil
  show ?case
  proof (cases ys)
    case Nil
    then show ?thesis by simp
  next
    case (Cons y ys')
    with Nil.prems have "y \<noteq> []" by (simp add: nonempty)
    with Nil.prems Cons show ?thesis by (simp add: join_Cons)
  qed
next
  case (Cons x xs)
  from Cons.prems have x: "x \<in> V" by simp
  show ?case
  proof (cases ys)
    case Nil
    with Cons.prems x nonempty [of x] show ?thesis by (simp add: join_Cons)
  next
    case ys: (Cons y ys')
    with Cons.prems have y: "y \<in> V" by simp
    have fx: "first (join sep (x # xs)) = x"
      using x by (simp add: join_Cons first_sep first_last)
    have fy: "first (join sep (y # ys')) = y"
      using y by (simp add: join_Cons first_sep first_last)
    from Cons.prems ys fx fy have xy: "x = y" by simp
    with Cons.prems ys
    have rest: "(if xs = [] then [] else sep @ join sep xs) =
                (if ys' = [] then [] else sep @ join sep ys')"
      by (simp add: join_Cons)
    have "xs = ys'"
    proof (cases "xs = []")
      case True
      with rest sep show ?thesis by (cases "ys' = []") simp_all
    next
      case False
      with rest sep have "ys' \<noteq> []" by (cases "ys' = []") simp_all
      with rest False have "join sep xs = join sep ys'" by simp
      moreover from Cons.prems ys have "set xs \<subseteq> V" "set ys' \<subseteq> V" by simp_all
      ultimately show ?thesis by (rule Cons.IH [rotated 2])
    qed
    with xy ys show ?thesis by simp
  qed
qed

lemma int_first_sep:
  assumes "x \<in> int_strings"
  shows "takeWhile (\<lambda>c. c \<noteq> CHR '','') (x @ CHR '','' # r) = x"
proof -
  have "\<And>c. c \<in> set x \<Longrightarrow> c \<noteq> CHR '',''"
    using assms by (auto simp: int_strings_def)
  then show ?thesis by (simp add: takeWhile_append2)
qed

lemma int_first_last:
  assumes "x \<in> int_strings"
  shows "takeWhile (\<lambda>c. c \<noteq> CHR '','') x = x"
  using assms by (auto simp: int_strings_def takeWhile_eq_all_conv)

lemma join_int_inj:
  "set xs \<subseteq> int_strings \<Longrightarrow> set ys \<subseteq> int_strings \<Longrightarrow>
   join '', '' xs = join '', '' ys \<Longrightarrow> xs = ys"
proof (rule join_inj [where V = int_strings and first = "takeWhile (\<lambda>c. c \<noteq> CHR '','')"
      and sep = "'', ''"])
  show "takeWhile (\<lambda>c. c \<noteq> CHR '','') (x @ '', '' @ r) = x" if "x \<in> int_strings" for x r
    using int_first_sep [OF that] by simp
  show "takeWhile (\<lambda>c. c \<noteq> CHR '','') x = x" if "x \<in> int_strings" for x
    using that by (rule int_first_last)
  show "x \<noteq> []" if "x \<in> int_strings" for x
    using that by (simp add: int_strings_def)
  show "'', '' \<noteq> []" by simp
qed

lemma py_tuple_body: "py_tuple xs = ''('' @ tuple_body xs @ '')''"
  by (simp add: py_tuple_def tuple_body_def split: list.splits)

lemma set_tuple_body:
  assumes "set xs \<subseteq> int_strings"
  shows "set (tuple_body xs) \<subseteq> int_chars \<union> {CHR '','', CHR '' ''}"
proof -
  have elems: "\<Union> (set ` set xs) \<subseteq> int_chars"
    using assms by (auto simp: int_strings_def)
  have sep: "set '', '' \<subseteq> {CHR '','', CHR '' ''}"
    by simp
  have "set (join '', '' xs) \<subseteq> set '', '' \<union> \<Union> (set ` set xs)"
    by (rule set_join)
  with elems sep have j: "set (join '', '' xs) \<subseteq> int_chars \<union> {CHR '','', CHR '' ''}"
    by blast
  show ?thesis
  proof (cases xs)
    case Nil
    then show ?thesis by (simp add: tuple_body_def)
  next
    case (Cons x xs')
    show ?thesis
    proof (cases xs')
      case Nil
      with Cons elems show ?thesis by (auto simp: tuple_body_def)
    next
      case (Cons y ys)
      with \<open>xs = x # xs'\<close> j show ?thesis by (simp add: tuple_body_def)
    qed
  qed
qed

lemma tuple_body_inj:
  assumes xs: "set xs \<subseteq> int_strings" and ys: "set ys \<subseteq> int_strings"
    and eq: "tuple_body xs = tuple_body ys"
  shows "xs = ys"
proof -
  have single_many: False
    if "x \<in> int_strings" "y \<in> int_strings" "x @ '','' = join '', '' (y # z # zs)" for x y z zs
  proof -
    have "takeWhile (\<lambda>c. c \<noteq> CHR '','') (x @ '','') = x"
      using int_first_sep [OF that(1), of "[]"] by simp
    moreover have "takeWhile (\<lambda>c. c \<noteq> CHR '','') (join '', '' (y # z # zs)) = y"
      using int_first_sep [OF that(2), of "CHR '' '' # join '', '' (z # zs)"] by simp
    ultimately have "x = y" using that(3) by simp
    with that(3) show False by simp
  qed
  have nonempty: "x \<noteq> []" if "x \<in> int_strings" for x
    using that by (simp add: int_strings_def)
  show ?thesis
  proof (cases xs)
    case Nil
    show ?thesis
    proof (cases ys)
      case Nil
      with \<open>xs = []\<close> show ?thesis by simp
    next
      case (Cons y ys')
      with ys have "y \<noteq> []" by (simp add: nonempty)
      with \<open>xs = []\<close> Cons eq show ?thesis
        by (cases ys') (simp_all add: tuple_body_def)
    qed
  next
    case (Cons x xs')
    with xs have x: "x \<in> int_strings" by simp
    show ?thesis
    proof (cases ys)
      case Nil
      with Cons eq nonempty [OF x] show ?thesis
        by (cases xs') (simp_all add: tuple_body_def)
    next
      case ys_Cons: (Cons y ys')
      with ys have y: "y \<in> int_strings" by simp
      show ?thesis
      proof (cases xs')
        case Nil
        show ?thesis
        proof (cases ys')
          case Nil
          with \<open>xs' = []\<close> Cons ys_Cons eq show ?thesis by (simp add: tuple_body_def)
        next
          case (Cons z zs)
          with \<open>xs' = []\<close> \<open>xs = x # xs'\<close> ys_Cons eq
          have "x @ '','' = join '', '' (y # z # zs)" by (simp add: tuple_body_def)
          with single_many [OF x y] show ?thesis by blast
        qed
      next
        case xs'_Cons: (Cons x2 xs2)
        show ?thesis
        proof (cases ys')
          case Nil
          with xs'_Cons Cons ys_Cons eq
          have "y @ '','' = join '', '' (x # x2 # xs2)" by (simp add: tuple_body_def)
          with single_many [OF y x] show ?thesis by blast
        next
          case (Cons z zs)
          with xs'_Cons \<open>xs = x # xs'\<close> ys_Cons eq
          have "join '', '' xs = join '', '' ys" by (simp add: tuple_body_def)
          with xs ys show ?thesis by (rule join_int_inj)
        qed
      qed
    qed
  qed
qed

lemma py_tuple_inj:
  assumes "set xs \<subseteq> int_strings" and "set ys \<subseteq> int_strings"
    and "py_tuple xs = py_tuple ys"
  shows "xs = ys"
proof -
  from assms(3) have "tuple_body xs = tuple_body ys"
    by (simp add: py_tuple_body)
  with assms(1,2) show ?thesis by (rule tuple_body_inj)
qed

lemma py_tuple_in:
  assumes "set xs \<subseteq> int_strings"
  shows "py_tuple xs \<in> tuple_strings"
proof -
  have "set (tuple_body xs) \<subseteq> int_chars \<union> {CHR '','', CHR '' ''}"
    using assms by (rule set_tuple_body)
  then have "CHR '')'' \<notin> set (''('' @ tuple_body xs)" "CHR 0x27 \<notin> set (''('' @ tuple_body xs)"
    by auto
  moreover have "py_tuple xs = (''('' @ tuple_body xs) @ '')''"
    by (simp add: py_tuple_body)
  ultimately show ?thesis
    unfolding tuple_strings_def by blast
qed

lemma tuple_first_append:
  assumes "x \<in> tuple_strings"
  shows "tuple_first (x @ r) = x"
proof -
  from assms obtain b where b: "x = b @ '')''" "CHR '')'' \<notin> set b"
    by (auto simp: tuple_strings_def)
  then have "\<And>c. c \<in> set b \<Longrightarrow> c \<noteq> CHR '')''" by auto
  then have "takeWhile (\<lambda>c. c \<noteq> CHR '')'') (b @ CHR '')'' # r) = b"
    by (simp add: takeWhile_append2)
  with b show ?thesis by (simp add: tuple_first_def)
qed

lemma join_tuple_inj:
  "set xs \<subseteq> tuple_strings \<Longrightarrow> set ys \<subseteq> tuple_strings \<Longrightarrow>
   join '', '' xs = join '', '' ys \<Longrightarrow> xs = ys"
proof (rule join_inj [where V = tuple_strings and first = tuple_first and sep = "'', ''"])
  show "tuple_first (x @ '', '' @ r) = x" if "x \<in> tuple_strings" for x r
    using that by (rule tuple_first_append)
  show "tuple_first x = x" if "x \<in> tuple_strings" for x
    using tuple_first_append [OF that, of "[]"] by simp
  show "x \<noteq> []" if "x \<in> tuple_strings" for x
    using that by (auto simp: tuple_strings_def)
  show "'', '' \<noteq> []" by simp
qed

lemma py_list_inj:
  assumes "set xs \<subseteq> tuple_strings" and "set ys \<subseteq> tuple_strings"
    and "py_list xs = py_list ys"
  shows "xs = ys"
proof -
  from assms(3) have "join '', '' xs = join '', '' ys"
    by (simp add: py_list_def)
  with assms(1,2) show ?thesis by (rule join_tuple_inj)
qed

lemma str_dict_tuples:
  "str_dict shape =
     ''{'vertices': '' @ py_tuples (vertices shape) @ '', 'faces': '' @
     py_tuples (faces shape) @ ''}''"
  by (simp add: str_dict_def py_tuples_def)

lemma tuple_of_ints_in: "py_tuple (map py_int v) \<in> tuple_strings"
  by (rule py_tuple_in) (auto simp: py_int_in)

lemma tuple_of_ints_inj:
  assumes "py_tuple (map py_int v) = py_tuple (map py_int v')"
  shows "v = v'"
proof -
  have "map py_int v = map py_int v'"
    using _ _ assms by (rule py_tuple_inj) (auto simp: py_int_in)
  moreover have "inj py_int"
    by (rule injI) (rule py_int_inj)
  ultimately show ?thesis
    by (simp add: inj_map_eq_map)
qed

lemma py_tuples_inj:
  assumes "py_tuples vs = py_tuples vs'"
  shows "vs = vs'"
proof -
  let ?f = "\<lambda>v. py_tuple (map py_int v)"
  have "map ?f vs = map ?f vs'"
    using _ _ assms [unfolded py_tuples_def]
    by (rule py_list_inj) (auto simp: tuple_of_ints_in)
  moreover have "inj ?f"
    by (rule injI) (rule tuple_of_ints_inj)
  ultimately show ?thesis
    by (simp add: inj_map_eq_map)
qed

lemma py_tuples_no_quote: "CHR 0x27 \<notin> set (py_tuples vs)"
proof -
  let ?xs = "map (\<lambda>v. py_tuple (map py_int v)) vs"
  have "CHR 0x27 \<notin> set x" if "x \<in> set ?xs" for x
  proof -
    from that have "x \<in> tuple_strings" by (auto simp: tuple_of_ints_in)
    then show ?thesis by (auto simp: tuple_strings_def)
  qed
  then have "CHR 0x27 \<notin> \<Union> (set ` set ?xs)" by blast
  moreover have "CHR 0x27 \<notin> set '', ''" by simp
  ultimately have "CHR 0x27 \<notin> set (join '', '' ?xs)"
    using set_join [of "'', ''" ?xs] by blast
  then show ?thesis by (simp add: py_tuples_def py_list_def)
qed

lemma split_at_first:
  assumes "q \<notin> set a" and "q \<notin> set b" and "a @ q # r = b @ q # r'"
  shows "a = b \<and> r = r'"
proof -
  have "\<And>c. c \<in> set a \<Longrightarrow> c \<noteq> q" and "\<And>c. c \<in> set b \<Longrightarrow> c \<noteq> q"
    using assms(1,2) by auto
  then have "takeWhile (\<lambda>c. c \<noteq> q) (a @ q # r) = a"
    and "takeWhile (\<lambda>c. c \<noteq> q) (b @ q # r') = b"
    by (simp_all add: takeWhile_append2)
  with assms(3) have "a = b" by simp
  with assms(3) show ?thesis by simp
qed

lemma str_dict_inj:
  assumes "str_dict s = str_dict s'"
  shows "s = s'"
proof -
  have eq: "(py_tuples (vertices s) @ '', '') @ CHR 0x27 # (''faces': '' @ py_tuples (faces s) @ ''}'') =
        (py_tuples (vertices s') @ '', '') @ CHR 0x27 # (''faces': '' @ py_tuples (faces s') @ ''}'')"
    using assms by (simp add: str_dict_tuples)
  have "CHR 0x27 \<notin> set (py_tuples (vertices s) @ '', '')"
    and "CHR 0x27 \<notin> set (py_tuples (vertices s') @ '', '')"
    by (simp_all add: py_tuples_no_quote)
  from split_at_first [OF this eq]
  have "py_tuples (vertices s) = py_tuples (vertices s')"
    and "py_tuples (faces s) = py_tuples (faces s')"
    by simp_all
  then have "vertices s = vertices s'" and "faces s = faces s'"
    by (simp_all add: py_tuples_inj)
  then show ?thesis by simp
qed

lemma str_dict_same_count:
  "str_dict s = str_dict s' \<Longrightarrow> length (concat (faces s)) = length (concat (faces s'))"
  by (drule str_dict_inj) simp

lemma renderer_life_integers:
  assumes "fst (initialize (OpenGLRenderer_init p v)) = Inr ()"
  shows "registered (snd (run str_dict cs (snd (initialize (OpenGLRenderer_init p v)))))"
    and "entry_agrees str_dict s (snd (run str_dict cs (snd (initialize (OpenGLRenderer_init p v)))))"
  using renderer_life [of str_dict, OF str_dict_same_count assms] by blast+

section \<open>The claims\<close>

text \<open>
  C1. Rendering the same shape twice in a row, a shape whose coordinates convert: \<open>w1\<close>
  is the world after the first \<open>render(shape)\<close> and \<open>w2\<close> the world after the second.
  The first call uploads the shape if it was not cached: it makes two buffer names and
  fills one with the converted coordinates and one with the indices. After it the shape's
  fingerprint is cached; on the second call \<open>_create_buffers\<close> returns the key and
  changes nothing, the cache is the same map with as many entries as before, the second
  call makes no \<open>glGenBuffers\<close> and no \<open>glBufferData\<close> call, and so the two calls
  together upload what the first one did, once.
\<close>

theorem render_twice_reuses_entry:
  assumes "coordinates_convert shape w"
    and "render fp shape w = (r1, w1)" and "render fp shape w1 = (r2, w2)"
  shows "geoms w1 (fp shape) \<noteq> None \<and>
         create_buffers fp shape w1 = (Inr (fp shape), w1) \<and>
         geoms w2 = geoms w1 \<and>
         card (dom (geoms w2)) = card (dom (geoms w1)) \<and>
         filter is_upload (issued w1 w2) = [] \<and>
         filter is_upload (issued w w2) = filter is_upload (issued w w1) \<and>
         filter is_upload (issued w w1) =
           (if geoms w (fp shape) = None
            then [GlGenBuffers (next_buffer (gl w)), GlGenBuffers (Suc (next_buffer (gl w))),
                  GlBufferData GL_ARRAY_BUFFER (4 * length (vertex_data shape w))
                    (GLfloats (vertex_data shape w)) GL_STATIC_DRAW,
                  GlBufferData GL_ELEMENT_ARRAY_BUFFER (4 * length (concat (faces shape)))
                    (GLuints (GLuint_array (concat (faces shape)))) GL_STATIC_DRAW]
            else [])"
proof -
  have w1: "w1 = snd (render fp shape w)" and w2: "w2 = snd (render fp shape w1)"
    using assms by simp_all
  have key: "key_returned fp shape w"
    using assms(1) by (simp add: key_returned_def)
  have cached: "geoms w1 (fp shape) = Some (entry_used fp shape w)"
    using key by (simp add: w1 render_geoms_entry)
  then have key1: "key_returned fp shape w1"
    by (simp add: key_returned_def)
  have same: "geoms w2 = geoms w1"
    using cached key1 by (simp add: w2 render_geoms_entry entry_used_cached fun_upd_idem)
  have none: "filter is_upload (issued w1 w2) = []"
    using cached by (simp add: w2 render_issued upload_calls_def)
  have "issued w w2 = issued w w1 @ issued w1 w2"
    unfolding w1 w2 by (rule issued_trans) (rule render_calls)+
  with none have both: "filter is_upload (issued w w2) = filter is_upload (issued w w1)"
    by simp
  have again: "create_buffers fp shape w1 = (Inr (fp shape), w1)"
    using cached by (simp add: create_buffers_def)
  have first: "filter is_upload (issued w w1) =
           (if geoms w (fp shape) = None
            then [GlGenBuffers (next_buffer (gl w)), GlGenBuffers (Suc (next_buffer (gl w))),
                  GlBufferData GL_ARRAY_BUFFER (4 * length (vertex_data shape w))
                    (GLfloats (vertex_data shape w)) GL_STATIC_DRAW,
                  GlBufferData GL_ELEMENT_ARRAY_BUFFER (4 * length (concat (faces shape)))
                    (GLuints (GLuint_array (concat (faces shape)))) GL_STATIC_DRAW]
            else [])"
    using assms(1) by (simp add: w1 render_issued upload_calls_def)
  from cached same none both again first show ?thesis by simp
qed

theorem render_twice_reuses_entry_witness:
  "coordinates_convert unit_square (ready_world True False) \<and>
   geoms (snd (render str_dict unit_square (ready_world True False))) (str_dict unit_square) \<noteq> None \<and>
   geoms (snd (render str_dict unit_square (snd (render str_dict unit_square (ready_world True False))))) =
     geoms (snd (render str_dict unit_square (ready_world True False))) \<and>
   filter is_upload (issued (snd (render str_dict unit_square (ready_world True False)))
     (snd (render str_dict unit_square (snd (render str_dict unit_square (ready_world True False)))))) = [] \<and>
   filter is_upload (issued (ready_world True False)
     (snd (render str_dict unit_square (ready_world True False)))) =
     [GlGenBuffers 1, GlGenBuffers 2,
      GlBufferData GL_ARRAY_BUFFER 48 (GLfloats [0, 1, 0, 1, 1, 0, 1, 0, 0, 0, 0, 0]) GL_STATIC_DRAW,
      GlBufferData GL_ELEMENT_ARRAY_BUFFER 24 (GLuints [0, 1, 2, 2, 3, 0]) GL_STATIC_DRAW]"
proof -
  have next_buffer: "next_buffer (gl (ready_world True False)) = 1"
    by (simp add: ready_world_def initialize_def init_shaders_def Let_def gl_defs shader_defs
          ok_def new_world_def OpenGLRenderer_init_def)
  from render_twice_reuses_entry [where shape = unit_square and w = "ready_world True False"
      and fp = str_dict, OF ready_world_converts(1) surjective_pairing surjective_pairing]
  show ?thesis
    by (simp add: ready_world_converts ready_world_geoms ready_world_vertex_data next_buffer
          unit_square_faces GLuint_array_def)
qed

text \<open>
  C2. A shape with two triangular faces whose coordinates convert, such as the unit
  square with its four vertices, rendered with fill enabled and stroke disabled by an
  initialised renderer whose cache agrees with the shape: \<open>render\<close> returns normally,
  the only draw call it makes is one
  \<open>glDrawElements(GL_TRIANGLES, 6, GL_UNSIGNED_INT, 0)\<close>, and it makes no line-loop
  draw call. How many vertices there are plays no part.
\<close>

theorem unit_square_draw:
  assumes "faces shape = [f1, f2]" and "length f1 = 3" and "length f2 = 3"
    and "fill_enabled (sketch_attrs w)" and "\<not> stroke_enabled (sketch_attrs w)"
    and "registered w" and "entry_agrees fp shape w" and "coordinates_convert shape w"
  shows "fst (render fp shape w) = Inr () \<and>
         filter is_draw (issued w (snd (render fp shape w))) =
           [GlDrawElements GL_TRIANGLES 6 GL_UNSIGNED_INT 0] \<and>
         filter (is_draw_mode GL_LINE_LOOP) (issued w (snd (render fp shape w))) = []"
proof -
  have "num_elements (entry_used fp shape w) = 6"
    using assms by (simp add: entry_used_agrees)
  moreover have "key_returned fp shape w"
    using assms by (simp add: key_returned_def)
  ultimately show ?thesis
    using assms by (simp add: render_fst render_issued fill_calls_def stroke_calls_def)
qed

theorem unit_square_draw_witness:
  "faces unit_square = [ [0, 1, 2], [2, 3, 0] ] \<and>
   fill_enabled (sketch_attrs (ready_world True False)) \<and>
   \<not> stroke_enabled (sketch_attrs (ready_world True False)) \<and>
   registered (ready_world True False) \<and>
   entry_agrees str_dict unit_square (ready_world True False) \<and>
   coordinates_convert unit_square (ready_world True False) \<and>
   fst (render str_dict unit_square (ready_world True False)) = Inr () \<and>
   filter is_draw (issued (ready_world True False)
       (snd (render str_dict unit_square (ready_world True False)))) =
     [GlDrawElements GL_TRIANGLES 6 GL_UNSIGNED_INT 0]"
  using unit_square_draw [of unit_square "[0, 1, 2]" "[2, 3, 0]" "ready_world True False" str_dict]
  by (simp add: unit_square_faces ready_world_attrs ready_world_registered
        ready_world_entry_agrees ready_world_converts)

text \<open>
  C3. For every shape, if both the fill-enabled flag and the stroke-enabled flag of the
  sketch attributes are false, then \<open>render(shape)\<close> issues no draw call: neither the
  \<open>GL_TRIANGLES\<close> nor the \<open>GL_LINE_LOOP\<close> branch runs. This holds in every world,
  whether or not the shape is cached, whether or not the renderer has been initialised,
  and also when \<open>render\<close> raises. With both flags false \<open>render\<close> returns normally
  exactly when \<open>_create_buffers\<close> returns a key: when the shape is cached or its
  coordinates convert.
\<close>

theorem render_without_fill_and_stroke:
  assumes "\<not> fill_enabled (sketch_attrs w)" and "\<not> stroke_enabled (sketch_attrs w)"
  shows "filter is_draw (issued w (snd (render fp shape w))) = [] \<and>
         (fst (render fp shape w) = Inr ()) = key_returned fp shape w"
proof (cases "key_returned fp shape w")
  case True
  with assms show ?thesis
    by (simp add: render_fst render_issued fill_calls_def stroke_calls_def)
next
  case False
  from render_raised(2) [OF False] have "fst (render fp shape w) \<noteq> Inr ()"
    by auto
  with False show ?thesis
    by (simp add: render_issued)
qed

theorem render_without_fill_and_stroke_witness:
  "\<not> fill_enabled (sketch_attrs (ready_world False False)) \<and>
   \<not> stroke_enabled (sketch_attrs (ready_world False False)) \<and>
   key_returned str_dict unit_square (ready_world False False) \<and>
   fst (render str_dict unit_square (ready_world False False)) = Inr () \<and>
   filter is_draw (issued (ready_world False False)
     (snd (render str_dict unit_square (ready_world False False)))) = []"
  using render_without_fill_and_stroke [of "ready_world False False" str_dict unit_square]
  by (simp add: ready_world_attrs key_returned_def ready_world_converts)

text \<open>
  C4. A shape whose face list is empty and whose coordinates convert, rendered by an
  initialised renderer whose cache agrees with the shape: \<open>render\<close> returns normally
  and every draw call it makes has element count 0. The draw calls are the ones the two
  flags ask for, each with count 0.
\<close>

theorem empty_faces_draw:
  assumes "faces shape = []" and "registered w" and "entry_agrees fp shape w"
    and "coordinates_convert shape w"
  shows "fst (render fp shape w) = Inr () \<and>
         (\<forall>c \<in> set (filter is_draw (issued w (snd (render fp shape w)))). element_count c = 0) \<and>
         filter is_draw (issued w (snd (render fp shape w))) =
           (if fill_enabled (sketch_attrs w)
            then [GlDrawElements GL_TRIANGLES 0 GL_UNSIGNED_INT 0] else []) @
           (if stroke_enabled (sketch_attrs w)
            then [GlDrawElements GL_LINE_LOOP 0 GL_UNSIGNED_INT 0] else [])"
proof -
  have key: "key_returned fp shape w"
    using assms by (simp add: key_returned_def)
  have "num_elements (entry_used fp shape w) = 0"
    using assms by (simp add: entry_used_agrees)
  with assms key have draws: "filter is_draw (issued w (snd (render fp shape w))) =
           (if fill_enabled (sketch_attrs w)
            then [GlDrawElements GL_TRIANGLES 0 GL_UNSIGNED_INT 0] else []) @
           (if stroke_enabled (sketch_attrs w)
            then [GlDrawElements GL_LINE_LOOP 0 GL_UNSIGNED_INT 0] else [])"
    by (simp add: render_issued fill_calls_def stroke_calls_def)
  have "\<forall>c \<in> set (filter is_draw (issued w (snd (render fp shape w)))). element_count c = 0"
    unfolding draws by auto
  with draws assms key show ?thesis
    by (simp add: render_fst)
qed

theorem empty_faces_draw_witness:
  "faces no_faces = [] \<and>
   registered (snd (run str_dict [Render unit_square, Clear] (ready_world True True))) \<and>
   entry_agrees str_dict no_faces
     (snd (run str_dict [Render unit_square, Clear] (ready_world True True))) \<and>
   coordinates_convert no_faces
     (snd (run str_dict [Render unit_square, Clear] (ready_world True True))) \<and>
   fst (render str_dict no_faces
     (snd (run str_dict [Render unit_square, Clear] (ready_world True True)))) = Inr () \<and>
   filter is_draw (issued (snd (run str_dict [Render unit_square, Clear] (ready_world True True)))
       (snd (render str_dict no_faces
          (snd (run str_dict [Render unit_square, Clear] (ready_world True True)))))) =
     [GlDrawElements GL_TRIANGLES 0 GL_UNSIGNED_INT 0,
      GlDrawElements GL_LINE_LOOP 0 GL_UNSIGNED_INT 0]"
proof -
  let ?w = "snd (run str_dict [Render unit_square, Clear] (ready_world True True))"
  have faces: "faces no_faces = []"
    by (simp add: no_faces_def)
  have reg: "registered ?w"
    using ready_world_registered by (rule run_registered)
  have agrees: "entry_agrees str_dict no_faces ?w"
    using str_dict_same_count ready_world_entry_agrees by (rule run_entry_agrees)
  have conv: "coordinates_convert no_faces ?w"
    by (simp add: run_converts ready_world_converts del: run.simps)
  have flags: "fill_enabled (sketch_attrs ?w)" "stroke_enabled (sketch_attrs ?w)"
    by (simp_all add: run_attrs ready_world_attrs del: run.simps)
  from empty_faces_draw [OF faces reg agrees conv] flags faces reg agrees conv
  show ?thesis by simp
qed

text \<open>
  C5. A render call with stroke enabled on an initialised renderer, for a shape whose
  coordinates convert, returns normally and ends with the stroke pass: \<open>set_uniform_data\<close> writes the stroke colour into the
  uniform \<open>fill_color\<close>, then the one line-loop draw of the call is issued with the
  entry's element count. Every uniform write of the call goes to \<open>fill_color\<close>: the fill
  colour first when fill is enabled, the stroke colour last. There is no other uniform
  to write to: on a new renderer \<open>initialize\<close> registers \<open>fill_color\<close> and nothing else.
\<close>

theorem stroke_uses_fill_color_slot:
  assumes "stroke_enabled (sketch_attrs w)" and "registered w"
    and "coordinates_convert shape w"
  shows "fst (render fp shape w) = Inr () \<and>
         (\<exists>before g. geoms (snd (render fp shape w)) (fp shape) = Some g \<and>
            issued w (snd (render fp shape w)) = before @
              [GlUniform4f ''fill_color'' (normalized (stroke_color (sketch_attrs w))),
               GlDrawElements GL_LINE_LOOP (num_elements g) GL_UNSIGNED_INT 0] \<and>
            filter (is_draw_mode GL_LINE_LOOP) before = []) \<and>
         filter is_uniform (issued w (snd (render fp shape w))) =
           (if fill_enabled (sketch_attrs w)
            then [GlUniform4f ''fill_color'' (normalized (fill_color (sketch_attrs w)))]
            else []) @
           [GlUniform4f ''fill_color'' (normalized (stroke_color (sketch_attrs w)))] \<and>
         dom (uniforms (shader_prog (snd (initialize (OpenGLRenderer_init p v))))) \<subseteq> {''fill_color''}"
proof -
  let ?g = "entry_used fp shape w"
  let ?before = "upload_calls fp shape w @ prelude ?g w @ fill_calls ?g w"
  have key: "key_returned fp shape w"
    using assms by (simp add: key_returned_def)
  have 1: "fst (render fp shape w) = Inr ()"
    using assms key by (simp add: render_fst)
  have 2: "geoms (snd (render fp shape w)) (fp shape) = Some ?g"
    using key by (simp add: render_geoms_entry)
  have 3: "issued w (snd (render fp shape w)) = ?before @
              [GlUniform4f ''fill_color'' (normalized (stroke_color (sketch_attrs w))),
               GlDrawElements GL_LINE_LOOP (num_elements ?g) GL_UNSIGNED_INT 0]"
    using assms key by (simp add: render_issued stroke_calls_def)
  have 4: "filter (is_draw_mode GL_LINE_LOOP) ?before = []"
    by (simp add: fill_calls_def)
  have 5: "filter is_uniform (issued w (snd (render fp shape w))) =
           (if fill_enabled (sketch_attrs w)
            then [GlUniform4f ''fill_color'' (normalized (fill_color (sketch_attrs w)))]
            else []) @
           [GlUniform4f ''fill_color'' (normalized (stroke_color (sketch_attrs w)))]"
    using assms key by (simp add: render_issued fill_calls_def stroke_calls_def)
  have 6: "dom (uniforms (shader_prog (snd (initialize (OpenGLRenderer_init p v))))) \<subseteq> {''fill_color''}"
    by (simp add: initialize_uniforms OpenGLRenderer_init_def)
  from 2 3 4 have "\<exists>before g. geoms (snd (render fp shape w)) (fp shape) = Some g \<and>
            issued w (snd (render fp shape w)) = before @
              [GlUniform4f ''fill_color'' (normalized (stroke_color (sketch_attrs w))),
               GlDrawElements GL_LINE_LOOP (num_elements g) GL_UNSIGNED_INT 0] \<and>
            filter (is_draw_mode GL_LINE_LOOP) before = []"
    by blast
  with 1 5 6 show ?thesis by blast
qed

theorem stroke_uses_fill_color_slot_witness:
  "stroke_enabled (sketch_attrs (ready_world True True)) \<and>
   registered (ready_world True True) \<and>
   coordinates_convert unit_square (ready_world True True) \<and>
   fst (render str_dict unit_square (ready_world True True)) = Inr () \<and>
   filter is_uniform (issued (ready_world True True)
       (snd (render str_dict unit_square (ready_world True True)))) =
     [GlUniform4f ''fill_color'' (1, 1, 1, 1), GlUniform4f ''fill_color'' (0, 0, 0, 1)]"
  using stroke_uses_fill_color_slot [where w = "ready_world True True" and fp = str_dict
      and shape = unit_square and p = 1 and v = "new_world True True"]
  by (simp add: ready_world_attrs ready_world_registered ready_world_converts)

text \<open>
  C6, as the code has it. \<open>initialize\<close> makes no capability check. It does not call
  \<open>check_support\<close>, which on this renderer is the base class's and raises
  \<open>NotImplementedError\<close>; it starts with the depth test, the depth function and the
  viewport, and it returns normally exactly when the driver compiles both shaders and
  links them.
\<close>

theorem initialize_makes_no_capability_check:
  "fst (check_support w) = Inl (NotImplementedError ''Abstract'') \<and>
   take 3 (issued w (snd (initialize w))) =
     [GlEnable GL_DEPTH_TEST, GlDepthFunc GL_LEQUAL,
      GlViewport 0 0 (width (sketch_attrs w)) (height (sketch_attrs w))] \<and>
   (fst (initialize w) = Inr ()) =
     (compiles (gl w) Vertex vertex_shader_source \<and>
      compiles (gl w) Fragment fragment_shader_source \<and>
      links (gl w) (attached (shader_prog w) @ [Vertex, Fragment]))"
  by (simp add: check_support_def BaseRenderer_check_support_def initialize_first_calls
        initialize_fst init_succeeds_def)

text \<open>
  C6 as stated says that \<open>initialize\<close> runs the capability check before anything else
  and fails through it. On a driver that accepts the shaders \<open>check_support\<close> raises and
  \<open>initialize\<close> returns normally all the same; on a driver that rejects them
  \<open>initialize\<close> raises the compile error after it has set the depth test, the depth
  function and the viewport.
\<close>

theorem initialize_unchecked_counterexample:
  "fst (check_support (new_world True False)) = Inl (NotImplementedError ''Abstract'') \<and>
   fst (initialize (new_world True False)) = Inr () \<and>
   fst (initialize rejecting_world) = Inl ShaderCompileError \<and>
   issued rejecting_world (snd (initialize rejecting_world)) =
     [GlEnable GL_DEPTH_TEST, GlDepthFunc GL_LEQUAL, GlViewport 0 0 600 400]"
  by (simp add: check_support_def BaseRenderer_check_support_def initialize_fst
        new_world_init_succeeds)
     (simp add: rejecting_world_def new_world_def OpenGLRenderer_init_def initialize_def
        init_shaders_def Let_def gl_defs shader_defs ok_def issued_def emit_def)

text \<open>
  C7. No call of the renderer removes an entry of the cache: what is cached before a
  call, or before a run of calls, is cached after it with the same entry, whether the
  calls return or raise. When a run of calls returns and the shapes it renders have
  pairwise distinct fingerprints, none of them cached before, the cache has gained one
  entry per rendered shape.
\<close>

theorem cache_never_evicts:
  assumes "finite (dom (geoms w))"
    and "distinct (map fp (shapes_of cs))"
    and "fp ` set (shapes_of cs) \<inter> dom (geoms w) = {}"
    and "fst (run fp cs w) = Inr ()"
  shows "geoms w \<subseteq>\<^sub>m geoms (snd (perform fp c w)) \<and>
         geoms w \<subseteq>\<^sub>m geoms (snd (run fp cs w)) \<and>
         card (dom (geoms (snd (run fp cs w)))) = card (dom (geoms w)) + length (shapes_of cs)"
proof -
  have 1: "geoms w \<subseteq>\<^sub>m geoms (snd (perform fp c w))"
    by (auto simp: map_le_def perform_keeps_entry)
  have 2: "geoms w \<subseteq>\<^sub>m geoms (snd (run fp cs w))"
    by (auto simp: map_le_def run_keeps_entry)
  have "card (dom (geoms (snd (run fp cs w)))) =
          card (dom (geoms w) \<union> fp ` set (shapes_of cs))"
    using assms(4) by (simp add: run_dom)
  also have "\<dots> = card (dom (geoms w)) + card (fp ` set (shapes_of cs))"
    using assms(1,3) by (simp add: card_Un_disjoint Int_commute)
  also have "card (fp ` set (shapes_of cs)) = length (shapes_of cs)"
    using assms(2) distinct_card [of "map fp (shapes_of cs)"] by simp
  finally show ?thesis using 1 2 by simp
qed

theorem cache_never_evicts_witness:
  "finite (dom (geoms (ready_world True False))) \<and>
   distinct (map str_dict (shapes_of [Render unit_square, Clear, Render (TestRect 2 1 1 1)])) \<and>
   str_dict ` set (shapes_of [Render unit_square, Clear, Render (TestRect 2 1 1 1)]) \<inter>
     dom (geoms (ready_world True False)) = {} \<and>
   fst (run str_dict [Render unit_square, Clear, Render (TestRect 2 1 1 1)]
          (ready_world True False)) = Inr () \<and>
   card (dom (geoms (snd (run str_dict [Render unit_square, Clear, Render (TestRect 2 1 1 1)]
          (ready_world True False))))) = 2"
proof -
  let ?cs = "[Render unit_square, Clear, Render (TestRect 2 1 1 1)]"
  let ?w = "ready_world True False"
  have 1: "finite (dom (geoms ?w))"
    by (simp add: ready_world_geoms)
  have 2: "distinct (map str_dict (shapes_of ?cs))"
    by (simp add: example_fingerprints)
  have 3: "str_dict ` set (shapes_of ?cs) \<inter> dom (geoms ?w) = {}"
    by (simp add: ready_world_geoms)
  have 4: "fst (run str_dict ?cs ?w) = Inr ()"
    using ready_world_registered by (rule run_succeeds) (auto simp: ready_world_converts)
  from cache_never_evicts [OF 1 2 3 4]
  have "card (dom (geoms (snd (run str_dict ?cs ?w)))) = 2"
    by (simp add: ready_world_geoms del: run.simps)
  with 1 2 3 4 show ?thesis by blast
qed

text \<open>
  C8, as the code has it. On the base renderer \<open>initialize\<close>, \<open>render\<close> and \<open>clear\<close> raise
  \<open>NotImplementedError\<close>; \<open>cleanup\<close>, like the hooks \<open>pre_render\<close> and \<open>post_render\<close>,
  returns normally and changes nothing.
\<close>

theorem base_renderer_methods:
  "BaseRenderer_initialize w = (Inl (NotImplementedError ''Abstract''), w) \<and>
   BaseRenderer_render shape w = (Inl (NotImplementedError ''Abstract''), w) \<and>
   BaseRenderer_clear w = (Inl (NotImplementedError ''Abstract''), w) \<and>
   BaseRenderer_pre_render w = (Inr (), w) \<and>
   BaseRenderer_post_render w = (Inr (), w) \<and>
   BaseRenderer_cleanup w = (Inr (), w)"
  by (simp add: BaseRenderer_initialize_def BaseRenderer_render_def BaseRenderer_clear_def
        BaseRenderer_pre_render_def BaseRenderer_post_render_def BaseRenderer_cleanup_def)

text \<open>
  C8 as stated says that \<open>cleanup\<close> on the base renderer signals an error. It does not:
  the body of \<open>BaseRenderer.cleanup\<close> is \<open>pass\<close>.
\<close>

theorem base_cleanup_counterexample:
  "BaseRenderer_cleanup (new_world True False) = (Inr (), new_world True False)"
  by (simp add: BaseRenderer_cleanup_def)

text \<open>
  C9. The renderer never changes the sketch attributes: after \<open>render(shape)\<close>, after
  \<open>clear()\<close> and after any run of calls, whether they return or raise, the attributes
  are what they were before.
\<close>

theorem renderer_leaves_sketch_attrs:
  "sketch_attrs (snd (render fp shape w)) = sketch_attrs w \<and>
   sketch_attrs (snd (clear w)) = sketch_attrs w \<and>
   sketch_attrs (snd (run fp cs w)) = sketch_attrs w"
  by (simp add: render_attrs clear_simps run_attrs del: run.simps)

text \<open>
  C10. On an initialised renderer, a render call with stroke enabled, for a shape whose
  coordinates convert, leaves the stroke
  colour in the uniform \<open>fill_color\<close>, whether or not fill is enabled: the stroke pass
  writes after the fill pass. A render call without stroke leaves the fill colour there
  when fill is enabled and leaves the uniform as it was otherwise; \<open>clear\<close> leaves it
  as it was.
\<close>

theorem fill_color_uniform_after_render:
  assumes "registered w" and "coordinates_convert shape w"
  shows "uniform_value (gl (snd (render fp shape w))) ''fill_color'' =
           (if stroke_enabled (sketch_attrs w)
            then Some (normalized (stroke_color (sketch_attrs w)))
            else if fill_enabled (sketch_attrs w)
            then Some (normalized (fill_color (sketch_attrs w)))
            else uniform_value (gl w) ''fill_color'') \<and>
         uniform_value (gl (snd (clear w))) ''fill_color'' = uniform_value (gl w) ''fill_color''"
  using assms by (simp add: render_uniform_value clear_simps key_returned_def)

theorem fill_color_uniform_after_render_witness:
  "registered (ready_world True True) \<and>
   coordinates_convert unit_square (ready_world True True) \<and>
   uniform_value (gl (snd (render str_dict unit_square (ready_world True True)))) ''fill_color'' =
     Some (0, 0, 0, 1)"
  using fill_color_uniform_after_render [of "ready_world True True" unit_square str_dict]
  by (simp add: ready_world_attrs ready_world_registered ready_world_converts)

end
